theory Spec2Isabelle
  imports Complex_Main
begin

section \<open>Data model (schema.sql)\<close>

text \<open>
  The tables of the schema, one record per row type. Columns that no query of
  backend.js reads in a condition or computes with (description, manufacturer, price,
  size_type, manufacture_date, created_at, picked_at) are left out.

  Identifiers are the AUTO_INCREMENT keys of the schema, natural numbers. INT columns are
  unbounded integers (a value outside the 32-bit range is refused by the server in strict
  mode, the transaction is rolled back and the stored state is as before). A DATE is the
  number of its day, a TIMESTAMP a number of milliseconds; both orders are those of the
  calendar.

  A DECIMAL(5,2) temperature is the integer number of its hundredths: 550 is 5.50 and
  -200 is -2.00. The server compares such values as numbers. The handlers do not: the
  pool is created without \<open>decimalNumbers\<close>, so the driver hands every DECIMAL
  column to JavaScript as the string the server prints (\<open>'5.50'\<close>, \<open>'-2.00'\<close>),
  and JavaScript compares two strings by their characters.
\<close>

type_synonym decimal = int

datatype storage_type = Ambient | ColdStorage

datatype batch_status = Available | BatchPicked | BatchDispatched | Expired | Damaged

datatype order_status = Pending | Completed | OrderDispatched | Cancelled

datatype pick_status = PendingPick | Picked | Dispatched

record product =
  product_id :: nat
  name :: string
  category :: storage_type

record storage_location =
  location_id :: nat
  zone :: string
  rack :: string
  slot :: string
  location_type :: storage_type
  capacity :: int
  current_occupancy :: int
  min_temp :: "decimal option"
  max_temp :: "decimal option"
  latest_temperature :: "decimal option"
  last_temp_update :: "int option"

record batch =
  batch_id :: nat
  b_product_id :: nat
  batch_number :: string
  expiry_date :: nat
  quantity :: int
  barcode :: string
  assigned_location_id :: "nat option"
  status :: batch_status

record order_row =
  order_id :: nat
  order_date :: int
  order_status :: order_status

record order_item =
  order_item_id :: nat
  oi_order_id :: nat
  oi_product_id :: nat
  oi_quantity :: int

record order_batch_pick =
  pick_id :: nat
  p_order_id :: nat
  p_batch_id :: nat
  quantity_picked :: int
  p_status :: pick_status

text \<open>
  The store: every table as the list of its rows in insertion order, and the next
  AUTO_INCREMENT value of every table.
\<close>

record database =
  products :: "product list"
  storage_locations :: "storage_location list"
  batches :: "batch list"
  orders :: "order_row list"
  order_items :: "order_item list"
  order_batch_picks :: "order_batch_pick list"
  next_product_id :: nat
  next_location_id :: nat
  next_batch_id :: nat
  next_order_id :: nat
  next_order_item_id :: nat
  next_pick_id :: nat

text \<open>
  What a handler can answer instead of its result: the 400 responses, and the errors
  thrown inside a transaction (by the code or by a constraint of the schema), which the
  handler's catch block answers after \<open>connection.rollback()\<close>.
\<close>

datatype error =
    ValidationError
  | NoSuitableLocation
  | InternalAllocationError
  | DuplicateProductName
  | DuplicateLocation
  | DuplicateBatchNumber
  | DuplicateBarcode
  | DuplicatePick
  | ForeignKeyViolation
  | BatchNotFound
  | BatchNotDeleted
  | InvalidOrderItem
  | InsufficientStock nat int int

section \<open>Smart allocation: findSuitableLocation\<close>

text \<open>Natural numbers in decimal.\<close>

fun show_nat :: "nat \<Rightarrow> string" where
  "show_nat n =
     (if n < 10 then [''0123456789'' ! n]
      else show_nat (n div 10) @ [''0123456789'' ! (n mod 10)])"

text \<open>
  The string the driver returns for a DECIMAL(5,2) value: a sign when negative, the
  integer part, a point and two decimals.
\<close>

definition decimal_text :: "decimal \<Rightarrow> string" where
  "decimal_text d =
     (if d < 0 then ''-'' else [])
       @ show_nat (nat \<bar>d\<bar> div 100)
       @ ''.''
       @ [''0123456789'' ! (nat \<bar>d\<bar> mod 100 div 10), ''0123456789'' ! (nat \<bar>d\<bar> mod 10)]"

text \<open>
  JavaScript's \<open><\<close> on two strings: the first character that differs decides, by
  its code, and a proper prefix is smaller.
\<close>

fun js_string_less :: "string \<Rightarrow> string \<Rightarrow> bool" where
  "js_string_less [] [] = False"
| "js_string_less [] (y # ys) = True"
| "js_string_less (x # xs) [] = False"
| "js_string_less (x # xs) (y # ys) =
     ((of_char x :: nat) < of_char y \<or> (x = y \<and> js_string_less xs ys))"

text \<open>
  JavaScript's \<open>a < b\<close> on two DECIMAL columns of a row, each a string or
  \<open>null\<close>: two strings are compared as strings; otherwise both sides become numbers,
  \<open>null\<close> the number 0. The other operators are \<open>a > b\<close> as \<open>b < a\<close>,
  \<open>a >= b\<close> as \<open>not (a < b)\<close> and \<open>a <= b\<close> as \<open>not (b < a)\<close>.
\<close>

definition js_to_number :: "decimal option \<Rightarrow> decimal" where
  "js_to_number v = (case v of None \<Rightarrow> 0 | Some x \<Rightarrow> x)"

definition js_less :: "decimal option \<Rightarrow> decimal option \<Rightarrow> bool" where
  "js_less a b =
     (case a of
        None \<Rightarrow> js_to_number a < js_to_number b
      | Some x \<Rightarrow>
          (case b of
             None \<Rightarrow> js_to_number a < js_to_number b
           | Some y \<Rightarrow> js_string_less (decimal_text x) (decimal_text y)))"

text \<open>
  The candidate query: rows of the product's category with room for the quantity, most
  free space first. \<open>sort_key\<close> is stable, so rows with equal free space stay in table
  order (the server promises no order among them).
\<close>

definition candidateLocations :: "database \<Rightarrow> storage_type \<Rightarrow> int \<Rightarrow> storage_location list" where
  "candidateLocations db productCategory quantityNeeded =
     sort_key (\<lambda>loc. - (capacity loc - current_occupancy loc))
       (filter (\<lambda>loc. location_type loc = productCategory
                     \<and> current_occupancy loc + quantityNeeded \<le> capacity loc)
          (storage_locations db))"

definition temperature_suitable :: "storage_location \<Rightarrow> bool" where
  "temperature_suitable loc =
     (case latest_temperature loc of
        None \<Rightarrow> True
      | Some t \<Rightarrow> \<not> js_less (Some t) (min_temp loc) \<and> \<not> js_less (max_temp loc) (Some t))"

text \<open>The loop over the candidates of a Cold Storage product, left at the first hit.\<close>

fun cold_storage_scan :: "storage_location list \<Rightarrow> storage_location option" where
  "cold_storage_scan [] = None"
| "cold_storage_scan (loc # rest) =
     (if temperature_suitable loc then Some loc else cold_storage_scan rest)"

definition findSuitableLocation ::
  "database \<Rightarrow> nat \<Rightarrow> int \<Rightarrow> error + storage_location option" where
  "findSuitableLocation db productId quantityNeeded =
     (case find (\<lambda>p. product_id p = productId) (products db) of
        None \<Rightarrow> Inl InternalAllocationError
      | Some p \<Rightarrow>
          (let productCategory = category p;
               candidates = candidateLocations db productCategory quantityNeeded
           in Inr (if productCategory = ColdStorage then cold_storage_scan candidates
                   else (case candidates of [] \<Rightarrow> None | loc # _ \<Rightarrow> Some loc))))"

section \<open>Writes shared by the handlers\<close>

text \<open>
  \<open>if (assignedLocationId)\<close>: JavaScript takes \<open>null\<close> and 0 for false.
\<close>

definition js_truthy :: "nat option \<Rightarrow> bool" where
  "js_truthy v = (case v of None \<Rightarrow> False | Some i \<Rightarrow> i \<noteq> 0)"

text \<open>
  \<open>UPDATE storage_locations SET current_occupancy = current_occupancy + ? WHERE
  location_id = ?\<close> (a decrement is a negative delta).
\<close>

definition add_occupancy :: "database \<Rightarrow> nat \<Rightarrow> int \<Rightarrow> database" where
  "add_occupancy db locationId delta =
     db\<lparr>storage_locations :=
          map (\<lambda>loc. if location_id loc = locationId
                     then loc\<lparr>current_occupancy := current_occupancy loc + delta\<rparr>
                     else loc)
            (storage_locations db)\<rparr>"

definition adjust_occupancy :: "database \<Rightarrow> nat option \<Rightarrow> int \<Rightarrow> database" where
  "adjust_occupancy db assignedLocationId delta =
     (case assignedLocationId of
        None \<Rightarrow> db
      | Some locationId \<Rightarrow>
          if js_truthy assignedLocationId then add_occupancy db locationId delta else db)"

section \<open>POST /products and POST /storage_locations\<close>

definition postProducts :: "database \<Rightarrow> string \<Rightarrow> storage_type \<Rightarrow> (error + product) \<times> database" where
  "postProducts db nm cat =
     (if nm = [] then (Inl ValidationError, db)
      else if nm \<in> set (map name (products db)) then (Inl DuplicateProductName, db)
      else (let row = \<lparr>product_id = next_product_id db, name = nm, category = cat\<rparr>
            in (Inr row,
                db\<lparr>products := products db @ [row],
                   next_product_id := Suc (next_product_id db)\<rparr>)))"

record location_body =
  body_zone :: string
  body_rack :: string
  body_slot :: string
  body_location_type :: storage_type
  body_capacity :: int
  body_min_temp :: "decimal option"
  body_max_temp :: "decimal option"

definition postStorageLocations ::
  "database \<Rightarrow> location_body \<Rightarrow> (error + storage_location) \<times> database" where
  "postStorageLocations db body =
     (if body_zone body = [] \<or> body_rack body = [] \<or> body_slot body = []
         \<or> body_capacity body \<le> 0 then (Inl ValidationError, db)
      else if body_location_type body = ColdStorage
              \<and> (body_min_temp body = None \<or> body_max_temp body = None)
      then (Inl ValidationError, db)
      else if (body_zone body, body_rack body, body_slot body)
                \<in> set (map (\<lambda>loc. (zone loc, rack loc, slot loc)) (storage_locations db))
      then (Inl DuplicateLocation, db)
      else (let cold = (body_location_type body = ColdStorage);
                row = \<lparr>location_id = next_location_id db,
                       zone = body_zone body, rack = body_rack body, slot = body_slot body,
                       location_type = body_location_type body,
                       capacity = body_capacity body,
                       current_occupancy = 0,
                       min_temp = (if cold then body_min_temp body else None),
                       max_temp = (if cold then body_max_temp body else None),
                       latest_temperature = None,
                       last_temp_update = None\<rparr>
            in (Inr row,
                db\<lparr>storage_locations := storage_locations db @ [row],
                   next_location_id := Suc (next_location_id db)\<rparr>)))"

section \<open>Batches: POST, PUT, DELETE\<close>

text \<open>
  The body of a batch request. A missing product is \<open>product_id = 0\<close>, a missing batch
  number the empty string, a missing barcode \<open>None\<close>; the quantity and the expiry date
  are well-typed.
\<close>

record batch_body =
  body_product_id :: nat
  body_batch_number :: string
  body_expiry_date :: nat
  body_quantity :: int
  body_barcode :: "string option"

text \<open>\<open>barcode || batch_number\<close>\<close>

definition barcode_or_batch_number :: "batch_body \<Rightarrow> string" where
  "barcode_or_batch_number body =
     (case body_barcode body of
        None \<Rightarrow> body_batch_number body
      | Some s \<Rightarrow> if s = [] then body_batch_number body else s)"

text \<open>
  \<open>INSERT INTO batches\<close>, with the two UNIQUE keys of the table. The product and the
  location exist: the allocator has read both.
\<close>

definition insert_batch :: "database \<Rightarrow> batch_body \<Rightarrow> nat \<Rightarrow> error + nat \<times> database" where
  "insert_batch db body assignedLocationId =
     (if body_batch_number body \<in> set (map batch_number (batches db))
      then Inl DuplicateBatchNumber
      else if barcode_or_batch_number body \<in> set (map barcode (batches db))
      then Inl DuplicateBarcode
      else (let newBatchId = next_batch_id db;
                row = \<lparr>batch_id = newBatchId,
                       b_product_id = body_product_id body,
                       batch_number = body_batch_number body,
                       expiry_date = body_expiry_date body,
                       quantity = body_quantity body,
                       barcode = barcode_or_batch_number body,
                       assigned_location_id = Some assignedLocationId,
                       status = Available\<rparr>
            in Inr (newBatchId,
                    db\<lparr>batches := batches db @ [row], next_batch_id := Suc newBatchId\<rparr>)))"

text \<open>
  Every handler that opens a transaction answers a failure after
  \<open>connection.rollback()\<close>: the store is the one the transaction started from.
\<close>

definition postBatches ::
  "database \<Rightarrow> batch_body \<Rightarrow> (error + nat \<times> string \<times> nat) \<times> database" where
  "postBatches db body =
     (if body_product_id body = 0 \<or> body_batch_number body = [] \<or> body_quantity body \<le> 0
      then (Inl ValidationError, db)
      else (case findSuitableLocation db (body_product_id body) (body_quantity body) of
              Inl e \<Rightarrow> (Inl e, db)
            | Inr None \<Rightarrow> (Inl NoSuitableLocation, db)
            | Inr (Some suitableLocation) \<Rightarrow>
                (let assignedLocationId = location_id suitableLocation
                 in (case insert_batch db body assignedLocationId of
                       Inl e \<Rightarrow> (Inl e, db)
                     | Inr (newBatchId, db1) \<Rightarrow>
                         (Inr (newBatchId, barcode_or_batch_number body, assignedLocationId),
                          add_occupancy db1 assignedLocationId (body_quantity body))))))"

text \<open>
  \<open>UPDATE batches SET ... WHERE batch_id = ?\<close>: the UNIQUE keys are checked against the
  other rows, the product against the products table (which of several violated
  constraints the server reports is its choice; the model takes this order).
\<close>

definition update_batch ::
  "database \<Rightarrow> nat \<Rightarrow> batch_body \<Rightarrow> batch_status \<Rightarrow> error + database" where
  "update_batch db ident body st =
     (let others = filter (\<lambda>b. batch_id b \<noteq> ident) (batches db)
      in if body_batch_number body \<in> set (map batch_number others)
         then Inl DuplicateBatchNumber
         else if barcode_or_batch_number body \<in> set (map barcode others)
         then Inl DuplicateBarcode
         else if body_product_id body \<notin> set (map product_id (products db))
         then Inl ForeignKeyViolation
         else Inr (db\<lparr>batches :=
                     map (\<lambda>b. if batch_id b = ident
                                then b\<lparr>b_product_id := body_product_id body,
                                       batch_number := body_batch_number body,
                                       expiry_date := body_expiry_date body,
                                       quantity := body_quantity body,
                                       barcode := barcode_or_batch_number body,
                                       status := st\<rparr>
                                else b)
                       (batches db)\<rparr>))"

definition putBatches ::
  "database \<Rightarrow> nat \<Rightarrow> batch_body \<Rightarrow> batch_status option \<Rightarrow> (error + batch option) \<times> database" where
  "putBatches db ident body st =
     (case st of
        None \<Rightarrow> (Inl ValidationError, db)
      | Some newStatus \<Rightarrow>
          if body_product_id body = 0 \<or> body_batch_number body = [] \<or> body_quantity body < 0
          then (Inl ValidationError, db)
          else (case find (\<lambda>b. batch_id b = ident) (batches db) of
                  None \<Rightarrow> (Inl BatchNotFound, db)
                | Some oldBatch \<Rightarrow>
                    (let oldQuantity = quantity oldBatch;
                         assignedLocationId = assigned_location_id oldBatch
                     in (case update_batch db ident body newStatus of
                           Inl e \<Rightarrow> (Inl e, db)
                         | Inr db1 \<Rightarrow>
                             (let quantityDifference = body_quantity body - oldQuantity;
                                  db2 = adjust_occupancy db1 assignedLocationId quantityDifference
                              in (Inr (find (\<lambda>b. batch_id b = ident) (batches db2)), db2))))))"

definition deleteBatches :: "database \<Rightarrow> nat \<Rightarrow> (error + nat) \<times> database" where
  "deleteBatches db ident =
     (case find (\<lambda>b. batch_id b = ident) (batches db) of
        None \<Rightarrow> (Inl BatchNotFound, db)
      | Some row \<Rightarrow>
          (let batchQuantity = quantity row;
               assignedLocationId = assigned_location_id row;
               db1 = db\<lparr>order_batch_picks :=
                         filter (\<lambda>p. p_batch_id p \<noteq> ident) (order_batch_picks db)\<rparr>;
               affectedRows = length (filter (\<lambda>b. batch_id b = ident) (batches db1));
               db2 = db1\<lparr>batches := filter (\<lambda>b. batch_id b \<noteq> ident) (batches db1)\<rparr>
           in if affectedRows = 0 then (Inl BatchNotDeleted, db)
              else (Inr ident, adjust_occupancy db2 assignedLocationId (- batchQuantity))))"

section \<open>Orders: POST /orders\<close>

text \<open>The FEFO query of one order item.\<close>

definition availableBatches :: "database \<Rightarrow> nat \<Rightarrow> batch list" where
  "availableBatches db productId =
     sort_key expiry_date
       (filter (\<lambda>b. b_product_id b = productId \<and> quantity b > 0 \<and> status b = Available)
          (batches db))"

text \<open>\<open>INSERT INTO order_batch_picks\<close>, with the table's UNIQUE(order_id, batch_id).\<close>

definition insert_pick :: "database \<Rightarrow> nat \<Rightarrow> nat \<Rightarrow> int \<Rightarrow> error + database" where
  "insert_pick db orderId batchId quantityFromBatch =
     (if (orderId, batchId) \<in> set (map (\<lambda>p. (p_order_id p, p_batch_id p)) (order_batch_picks db))
      then Inl DuplicatePick
      else Inr (db\<lparr>order_batch_picks :=
                     order_batch_picks db @
                       [\<lparr>pick_id = next_pick_id db, p_order_id = orderId, p_batch_id = batchId,
                         quantity_picked = quantityFromBatch, p_status = PendingPick\<rparr>],
                   next_pick_id := Suc (next_pick_id db)\<rparr>))"

definition reduce_batch_quantity :: "database \<Rightarrow> nat \<Rightarrow> int \<Rightarrow> database" where
  "reduce_batch_quantity db batchId amount =
     db\<lparr>batches := map (\<lambda>b. if batch_id b = batchId then b\<lparr>quantity := quantity b - amount\<rparr>
                              else b)
                     (batches db)\<rparr>"

text \<open>
  The inner loop, over the rows the query returned (their quantities are those read by
  the query), with the store and \<open>remainingToPick\<close> threaded through.
\<close>

fun pick_loop :: "database \<Rightarrow> nat \<Rightarrow> batch list \<Rightarrow> int \<Rightarrow> error + database \<times> int" where
  "pick_loop db orderId [] remainingToPick = Inr (db, remainingToPick)"
| "pick_loop db orderId (b # rest) remainingToPick =
     (if remainingToPick \<le> 0 then Inr (db, remainingToPick)
      else (let quantityFromBatch = min remainingToPick (quantity b)
            in (case insert_pick db orderId (batch_id b) quantityFromBatch of
                  Inl e \<Rightarrow> Inl e
                | Inr db1 \<Rightarrow>
                    (let db2 = reduce_batch_quantity db1 (batch_id b) quantityFromBatch;
                         db3 = adjust_occupancy db2 (assigned_location_id b) (- quantityFromBatch)
                     in pick_loop db3 orderId rest (remainingToPick - quantityFromBatch)))))"

text \<open>\<open>INSERT INTO order_items\<close>; the product is a foreign key.\<close>

definition insert_order_item :: "database \<Rightarrow> nat \<Rightarrow> nat \<Rightarrow> int \<Rightarrow> error + database" where
  "insert_order_item db orderId productId qty =
     (if productId \<notin> set (map product_id (products db)) then Inl ForeignKeyViolation
      else Inr (db\<lparr>order_items :=
                     order_items db @
                       [\<lparr>order_item_id = next_order_item_id db, oi_order_id = orderId,
                         oi_product_id = productId, oi_quantity = qty\<rparr>],
                   next_order_item_id := Suc (next_order_item_id db)\<rparr>))"

text \<open>One item of the order: (product_id, quantity).\<close>

definition process_item :: "database \<Rightarrow> nat \<Rightarrow> nat \<times> int \<Rightarrow> error + database" where
  "process_item db orderId item =
     (let productId = fst item; qty = snd item
      in if productId = 0 \<or> qty \<le> 0 then Inl InvalidOrderItem
         else (case insert_order_item db orderId productId qty of
                 Inl e \<Rightarrow> Inl e
               | Inr db1 \<Rightarrow>
                   (case pick_loop db1 orderId (availableBatches db1 productId) qty of
                      Inl e \<Rightarrow> Inl e
                    | Inr (db2, remainingToPick) \<Rightarrow>
                        if remainingToPick > 0
                        then Inl (InsufficientStock productId qty (qty - remainingToPick))
                        else Inr db2)))"

fun items_loop :: "database \<Rightarrow> nat \<Rightarrow> (nat \<times> int) list \<Rightarrow> error + database" where
  "items_loop db orderId [] = Inr db"
| "items_loop db orderId (item # rest) =
     (case process_item db orderId item of
        Inl e \<Rightarrow> Inl e
      | Inr db1 \<Rightarrow> items_loop db1 orderId rest)"

definition insert_order :: "database \<Rightarrow> int \<Rightarrow> nat \<times> database" where
  "insert_order db now =
     (next_order_id db,
      db\<lparr>orders := orders db @
                     [\<lparr>order_id = next_order_id db, order_date = now, order_status = Pending\<rparr>],
         next_order_id := Suc (next_order_id db)\<rparr>)"

definition postOrders :: "database \<Rightarrow> int \<Rightarrow> (nat \<times> int) list \<Rightarrow> (error + nat) \<times> database" where
  "postOrders db now items =
     (if items = [] then (Inl ValidationError, db)
      else (let (orderId, db1) = insert_order db now
            in (case items_loop db1 orderId items of
                  Inl e \<Rightarrow> (Inl e, db)
                | Inr db2 \<Rightarrow> (Inr orderId, db2))))"

section \<open>GET /verify-barcode/:barcode\<close>

record verified_batch =
  vb_batch_id :: nat
  vb_batch_number :: string
  vb_quantity :: int
  vb_expiry_date :: nat
  vb_product_name :: string
  vb_product_type :: storage_type

record pending_pick =
  pp_pick_id :: nat
  pp_order_id :: nat
  pp_quantity_picked :: int
  pp_order_status :: order_status

record verification =
  isValid :: bool
  messages :: "string list"
  verified :: "verified_batch option"
  pendingPicks :: "pending_pick list option"

text \<open>Integers inside template strings, in decimal.\<close>

definition show_int :: "int \<Rightarrow> string" where
  "show_int i = (if i < 0 then CHR ''-'' # show_nat (nat (- i)) else show_nat (nat i))"

fun join_comma :: "string list \<Rightarrow> string" where
  "join_comma [] = []"
| "join_comma [x] = x"
| "join_comma (x # y # rest) = x @ '', '' @ join_comma (y # rest)"

text \<open>The batch query, joined with the batch's product.\<close>

definition batchRows :: "database \<Rightarrow> string \<Rightarrow> verified_batch list" where
  "batchRows db code =
     concat (map (\<lambda>b. map (\<lambda>p. \<lparr>vb_batch_id = batch_id b, vb_batch_number = batch_number b,
                                  vb_quantity = quantity b, vb_expiry_date = expiry_date b,
                                  vb_product_name = name p, vb_product_type = category p\<rparr>)
                         (filter (\<lambda>p. product_id p = b_product_id b) (products db)))
               (filter (\<lambda>b. barcode b = code) (batches db)))"

text \<open>The picks of the batch that are pending, in a pending order.\<close>

definition pendingPicksOf :: "database \<Rightarrow> nat \<Rightarrow> pending_pick list" where
  "pendingPicksOf db batchId =
     concat (map (\<lambda>p. map (\<lambda>ord. \<lparr>pp_pick_id = pick_id p, pp_order_id = p_order_id p,
                                    pp_quantity_picked = quantity_picked p,
                                    pp_order_status = order_status ord\<rparr>)
                         (filter (\<lambda>ord. order_id ord = p_order_id p \<and> order_status ord = Pending)
                            (orders db)))
               (filter (\<lambda>p. p_batch_id p = batchId \<and> p_status p = PendingPick)
                  (order_batch_picks db)))"

text \<open>
  \<open>today\<close> is the number of the current day and \<open>localeDate\<close> the host's
  \<open>toLocaleDateString\<close>. The handler compares the last millisecond of the expiry day
  with the first of today, and with the last of the thirtieth day from today: in days,
  \<open>expiry < today\<close> and \<open>expiry \<le> today + 30\<close>. The expiry date of a row is
  never null (the column is NOT NULL).
\<close>

definition verificationResult ::
  "database \<Rightarrow> (nat \<Rightarrow> string) \<Rightarrow> nat \<Rightarrow> string \<Rightarrow> verification" where
  "verificationResult db localeDate today code =
     (case batchRows db code of
        [] \<Rightarrow> \<lparr>isValid = False, messages = [''Barcode not found.''],
               verified = None, pendingPicks = None\<rparr>
      | row # _ \<Rightarrow>
          (let r0 = \<lparr>isValid = True, messages = [], verified = Some row, pendingPicks = None\<rparr>;
               r1 = (if vb_quantity row \<le> 0
                     then r0\<lparr>isValid := False,
                            messages := messages r0 @
                              [''Batch is out of stock (Quantity: '' @ show_int (vb_quantity row)
                                 @ '').'']\<rparr>
                     else r0);
               r2 = (if vb_expiry_date row < today
                     then r1\<lparr>isValid := False,
                            messages := messages r1 @
                              [''Expired: Batch expired on '' @ localeDate (vb_expiry_date row)
                                 @ ''.'']\<rparr>
                     else if vb_expiry_date row \<le> today + 30
                     then r1\<lparr>messages := messages r1 @
                              [''Expiring Soon: Batch expires on ''
                                 @ localeDate (vb_expiry_date row) @ ''.'']\<rparr>
                     else r1);
               picks = pendingPicksOf db (vb_batch_id row)
           in if picks \<noteq> []
              then r2\<lparr>pendingPicks := Some picks,
                     messages := messages r2 @
                       [''Part of pending order(s) for picking: ''
                          @ join_comma (map (\<lambda>p. show_nat (pp_order_id p)) picks) @ ''.'']\<rparr>
              else if vb_quantity row > 0 \<and> vb_expiry_date row \<ge> today
              then r2\<lparr>isValid := False,
                     messages := messages r2 @
                       [''This batch is not part of any *active* pending pick list.'']\<rparr>
              else r2))"

text \<open>
  The handler issues SELECT statements only: the store it leaves is the store it read.
\<close>

definition verifyBarcode ::
  "database \<Rightarrow> (nat \<Rightarrow> string) \<Rightarrow> nat \<Rightarrow> string \<Rightarrow> verification \<times> database" where
  "verifyBarcode db localeDate today code = (verificationResult db localeDate today code, db)"

section \<open>GET /alerts/temperature\<close>

text \<open>
  The alert types \<open>'No Readings'\<close>, \<open>'Low Temperature'\<close>, \<open>'High Temperature'\<close>,
  \<open>'Stale Reading'\<close>, and the empty string the handler starts from. The message text
  of an alert is not modelled.
\<close>

datatype alert_type = NoReadings | LowTemperature | HighTemperature | StaleReading | NoAlertType

record temperature_alert =
  alert_location_id :: nat
  alert_location_name :: string
  alert_kind :: alert_type

text \<open>
  A comparison in a WHERE clause selects a row only when it is true: with a NULL operand
  it is unknown, and the row is not selected by it.
\<close>

definition sql_less :: "('a::linorder) option \<Rightarrow> 'a option \<Rightarrow> bool" where
  "sql_less a b = (case a of None \<Rightarrow> False | Some x \<Rightarrow> (case b of None \<Rightarrow> False | Some y \<Rightarrow> x < y))"

text \<open>
  The query is evaluated by the server at \<open>sqlNow\<close> (its \<open>NOW()\<close>), the result is
  formatted by the handler at \<open>jsNow\<close> (its \<open>Date.now()\<close>), both in milliseconds.
\<close>

definition alert_rows :: "database \<Rightarrow> int \<Rightarrow> storage_location list" where
  "alert_rows db sqlNow =
     filter (\<lambda>sl. location_type sl = ColdStorage
                 \<and> (latest_temperature sl = None
                    \<or> sql_less (latest_temperature sl) (min_temp sl)
                    \<or> sql_less (max_temp sl) (latest_temperature sl)
                    \<or> last_temp_update sl = None
                    \<or> sql_less (last_temp_update sl) (Some (sqlNow - 3600000))))
       (storage_locations db)"

definition format_alert :: "int \<Rightarrow> storage_location \<Rightarrow> temperature_alert" where
  "format_alert jsNow alert =
     \<lparr>alert_location_id = location_id alert,
      alert_location_name = zone alert @ ''-'' @ rack alert @ ''-'' @ slot alert,
      alert_kind =
        (case latest_temperature alert of
           None \<Rightarrow> NoReadings
         | Some t \<Rightarrow>
             (case last_temp_update alert of
                None \<Rightarrow> NoReadings
              | Some u \<Rightarrow>
                  if js_less (Some t) (min_temp alert) then LowTemperature
                  else if js_less (max_temp alert) (Some t) then HighTemperature
                  else if u < jsNow - 3600000 then StaleReading
                  else NoAlertType))\<rparr>"

definition temperatureAlerts :: "database \<Rightarrow> int \<Rightarrow> int \<Rightarrow> temperature_alert list" where
  "temperatureAlerts db sqlNow jsNow = map (format_alert jsNow) (alert_rows db sqlNow)"

section \<open>The mutating core operations as requests\<close>

datatype request =
    PostBatches batch_body
  | PutBatches nat batch_body "batch_status option"
  | DeleteBatches nat
  | PostOrders int "(nat \<times> int) list"

text \<open>The store a request leaves behind.\<close>

fun handle :: "database \<Rightarrow> request \<Rightarrow> database" where
  "handle db (PostBatches body) = snd (postBatches db body)"
| "handle db (PutBatches ident body st) = snd (putBatches db ident body st)"
| "handle db (DeleteBatches ident) = snd (deleteBatches db ident)"
| "handle db (PostOrders now items) = snd (postOrders db now items)"

section \<open>Notions of the specification\<close>

subsection \<open>The occupancy ledger\<close>

text \<open>The sum of the quantities of the batches assigned to a location.\<close>

definition assigned_quantity :: "batch list \<Rightarrow> nat \<Rightarrow> int" where
  "assigned_quantity bs locationId =
     sum_list (map quantity (filter (\<lambda>b. assigned_location_id b = Some locationId) bs))"

definition ledger_ok :: "database \<Rightarrow> bool" where
  "ledger_ok db =
     (\<forall>loc \<in> set (storage_locations db).
        current_occupancy loc = assigned_quantity (batches db) (location_id loc))"

text \<open>
  Between two stores: every location row is kept, its counter moved by exactly the change
  of the quantity assigned to it.
\<close>

definition ledger_delta :: "database \<Rightarrow> database \<Rightarrow> bool" where
  "ledger_delta db db' =
     (storage_locations db' =
        map (\<lambda>loc. loc\<lparr>current_occupancy :=
                         current_occupancy loc
                           + (assigned_quantity (batches db') (location_id loc)
                              - assigned_quantity (batches db) (location_id loc))\<rparr>)
          (storage_locations db))"

text \<open>
  What the schema guarantees of a store: batch_id is a primary key, handed out by
  AUTO_INCREMENT (so below the next value), and the keys of storage_locations start at 1.
\<close>

definition schema_ok :: "database \<Rightarrow> bool" where
  "schema_ok db =
     (distinct (map batch_id (batches db))
      \<and> (\<forall>b \<in> set (batches db). batch_id b < next_batch_id db
                                  \<and> assigned_location_id b \<noteq> Some 0)
      \<and> (\<forall>loc \<in> set (storage_locations db). location_id loc \<noteq> 0)
      \<and> 0 < next_location_id db)"

subsection \<open>Allocation, in the words of the specification\<close>

definition within_range :: "storage_location \<Rightarrow> bool" where
  "within_range loc =
     (case latest_temperature loc of
        None \<Rightarrow> False
      | Some t \<Rightarrow>
          (case min_temp loc of
             None \<Rightarrow> False
           | Some lo \<Rightarrow> (case max_temp loc of None \<Rightarrow> False | Some hi \<Rightarrow> lo \<le> t \<and> t \<le> hi)))"

definition temperature_gate :: "storage_type \<Rightarrow> storage_location \<Rightarrow> bool" where
  "temperature_gate productCategory loc =
     (case productCategory of
        Ambient \<Rightarrow> True
      | ColdStorage \<Rightarrow> latest_temperature loc = None \<or> within_range loc)"

definition free_capacity :: "storage_location \<Rightarrow> int" where
  "free_capacity loc = capacity loc - current_occupancy loc"

definition eligible :: "storage_type \<Rightarrow> int \<Rightarrow> storage_location \<Rightarrow> bool" where
  "eligible productCategory quantityNeeded loc =
     (location_type loc = productCategory \<and> quantityNeeded \<le> free_capacity loc)"

definition allocate :: "storage_location list \<Rightarrow> storage_type \<Rightarrow> int \<Rightarrow> storage_location option" where
  "allocate locs productCategory quantityNeeded =
     find (temperature_gate productCategory)
       (sort_key (\<lambda>loc. - free_capacity loc)
          (filter (eligible productCategory quantityNeeded) locs))"

subsection \<open>FEFO depletion, in the words of the specification\<close>

text \<open>
  The planned picks of one item: each candidate in order gives
  \<open>min remaining quantity\<close>, until nothing remains.
\<close>

fun fefo_plan :: "int \<Rightarrow> batch list \<Rightarrow> (batch \<times> int) list" where
  "fefo_plan remaining [] = []"
| "fefo_plan remaining (b # rest) =
     (if remaining \<le> 0 then []
      else (b, min remaining (quantity b))
             # fefo_plan (remaining - min remaining (quantity b)) rest)"

text \<open>What a plan takes from a batch, and from the batches of a location.\<close>

definition taken_from_batch :: "(batch \<times> int) list \<Rightarrow> nat \<Rightarrow> int" where
  "taken_from_batch plan batchId =
     sum_list (map snd (filter (\<lambda>e. batch_id (fst e) = batchId) plan))"

definition taken_from_location :: "(batch \<times> int) list \<Rightarrow> nat \<Rightarrow> int" where
  "taken_from_location plan locationId =
     sum_list (map snd (filter (\<lambda>e. locationId \<noteq> 0
                                     \<and> assigned_location_id (fst e) = Some locationId) plan))"

definition pick_of_plan :: "nat \<Rightarrow> batch \<times> int \<Rightarrow> nat \<times> nat \<times> int \<times> pick_status" where
  "pick_of_plan orderId e = (orderId, batch_id (fst e), snd e, PendingPick)"

definition pick_content :: "order_batch_pick \<Rightarrow> nat \<times> nat \<times> int \<times> pick_status" where
  "pick_content p = (p_order_id p, p_batch_id p, quantity_picked p, p_status p)"

definition item_content :: "order_item \<Rightarrow> nat \<times> nat \<times> int" where
  "item_content oi = (oi_order_id oi, oi_product_id oi, oi_quantity oi)"

subsection \<open>Temperature alerts, in the words of the specification\<close>

definition classify :: "int \<Rightarrow> storage_location \<Rightarrow> alert_type option" where
  "classify now loc =
     (if location_type loc \<noteq> ColdStorage then None
      else if latest_temperature loc = None \<or> last_temp_update loc = None then Some NoReadings
      else if sql_less (latest_temperature loc) (min_temp loc) then Some LowTemperature
      else if sql_less (max_temp loc) (latest_temperature loc) then Some HighTemperature
      else if sql_less (last_temp_update loc) (Some (now - 3600000)) then Some StaleReading
      else None)"

section \<open>A sample store\<close>

text \<open>
  Days are counted from 1970-01-01: 20089 is 2025-01-01 and 20120 is 2025-02-01.
  Location 1 holds two batches of product 1, entered latest expiry first; location 2
  holds batch 3, of which order 1 (pending) has a pending pick; location 3 has the most
  free space of the cold locations and a reading above its range.
\<close>

definition glove_batch_late :: batch where
  "glove_batch_late =
     \<lparr>batch_id = 1, b_product_id = 1, batch_number = ''GLOVE-002'', expiry_date = 20120,
      quantity = 5, barcode = ''GLOVE-002'', assigned_location_id = Some 1,
      status = Available\<rparr>"

definition glove_batch_early :: batch where
  "glove_batch_early =
     \<lparr>batch_id = 2, b_product_id = 1, batch_number = ''GLOVE-001'', expiry_date = 20089,
      quantity = 5, barcode = ''GLOVE-001'', assigned_location_id = Some 1,
      status = Available\<rparr>"

definition vaccine_batch :: batch where
  "vaccine_batch =
     \<lparr>batch_id = 3, b_product_id = 2, batch_number = ''FLUVAX-003'', expiry_date = 20454,
      quantity = 12, barcode = ''FLUVAX-003'', assigned_location_id = Some 2,
      status = Available\<rparr>"

definition sample_db :: database where
  "sample_db =
     \<lparr>products =
        [\<lparr>product_id = 1, name = ''Surgical Gloves'', category = Ambient\<rparr>,
         \<lparr>product_id = 2, name = ''Flu Vaccine'', category = ColdStorage\<rparr>],
      storage_locations =
        [\<lparr>location_id = 1, zone = ''Ambient_A'', rack = ''AR1'', slot = ''AS1'',
          location_type = Ambient, capacity = 100, current_occupancy = 10,
          min_temp = None, max_temp = None, latest_temperature = None,
          last_temp_update = None\<rparr>,
         \<lparr>location_id = 2, zone = ''Cold_A'', rack = ''CR1'', slot = ''CS1'',
          location_type = ColdStorage, capacity = 80, current_occupancy = 12,
          min_temp = Some 200, max_temp = Some 800, latest_temperature = Some 500,
          last_temp_update = Some 7200000\<rparr>,
         \<lparr>location_id = 3, zone = ''Cold_A'', rack = ''CR1'', slot = ''CS2'',
          location_type = ColdStorage, capacity = 90, current_occupancy = 0,
          min_temp = Some 200, max_temp = Some 800, latest_temperature = Some 1000,
          last_temp_update = Some 7200000\<rparr>],
      batches = [glove_batch_late, glove_batch_early, vaccine_batch],
      orders = [\<lparr>order_id = 1, order_date = 0, order_status = Pending\<rparr>],
      order_items =
        [\<lparr>order_item_id = 1, oi_order_id = 1, oi_product_id = 2, oi_quantity = 3\<rparr>],
      order_batch_picks =
        [\<lparr>pick_id = 1, p_order_id = 1, p_batch_id = 3, quantity_picked = 3,
          p_status = PendingPick\<rparr>],
      next_product_id = 3, next_location_id = 4, next_batch_id = 4, next_order_id = 2,
      next_order_item_id = 2, next_pick_id = 2\<rparr>"

text \<open>
  The sample store with other bounds and another reading at location 3.
\<close>

definition reading_db :: "decimal \<Rightarrow> decimal \<Rightarrow> decimal \<Rightarrow> database" where
  "reading_db lo hi t =
     sample_db\<lparr>storage_locations :=
                 map (\<lambda>loc. if location_id loc = 3
                            then loc\<lparr>min_temp := Some lo, max_temp := Some hi,
                                    latest_temperature := Some t\<rparr>
                            else loc)
                   (storage_locations sample_db)\<rparr>"

text \<open>
  A store filled through the handlers alone, from nothing: one product, one Ambient
  location of capacity 10, one delivery of 5 units, which the allocator puts there.
\<close>

definition empty_db :: database where
  "empty_db =
     \<lparr>products = [], storage_locations = [], batches = [], orders = [], order_items = [],
      order_batch_picks = [],
      next_product_id = 1, next_location_id = 1, next_batch_id = 1, next_order_id = 1,
      next_order_item_id = 1, next_pick_id = 1\<rparr>"

definition small_shelf :: location_body where
  "small_shelf =
     \<lparr>body_zone = ''Ambient_A'', body_rack = ''AR1'', body_slot = ''AS1'',
      body_location_type = Ambient, body_capacity = 10,
      body_min_temp = None, body_max_temp = None\<rparr>"

definition first_delivery :: batch_body where
  "first_delivery =
     \<lparr>body_product_id = 1, body_batch_number = ''GLOVE-001'', body_expiry_date = 20454,
      body_quantity = 5, body_barcode = None\<rparr>"

definition stocked_db :: database where
  "stocked_db =
     snd (postBatches
            (snd (postStorageLocations
                    (snd (postProducts empty_db ''Surgical Gloves'' Ambient))
                    small_shelf))
            first_delivery)"

section \<open>The location allocator\<close>

lemmas sample_defs = sample_db_def glove_batch_late_def glove_batch_early_def vaccine_batch_def

lemma cold_storage_scan_find: "cold_storage_scan xs = find temperature_suitable xs"
  by (induction xs) auto

lemma find_Some_mem: "find P xs = Some x \<Longrightarrow> x \<in> set xs \<and> P x"
  by (induction xs) (auto split: if_splits)

lemmas temperature_defs =
  reading_db_def temperature_suitable_def js_less_def js_to_number_def decimal_text_def

text \<open>
  Claim C4 fails at the temperature gate of \<open>findSuitableLocation\<close>. The candidates
  are chosen and ordered as the claim says, but the reading is compared with the bounds
  as strings. With location 3 (most free space) reading 30.00 against bounds 2.00 to
  8.00, \<open>'30.00' >= '2.00'\<close> and \<open>'30.00' <= '8.00'\<close> both hold and the location
  is returned, where the specification's \<open>allocate\<close> skips it and returns location 2.
  With a reading of -1.00 within bounds -2.00 to 4.00, \<open>'-1.00' >= '-2.00'\<close> fails
  (\<open>'1'\<close> comes before \<open>'2'\<close>) and the location is skipped, where \<open>allocate\<close>
  returns it.
\<close>

theorem allocator_compares_temperatures_as_strings:
  "decimal_text 3000 = ''30.00'' \<and> decimal_text 200 = ''2.00'' \<and> decimal_text 800 = ''8.00''
   \<and> map (\<lambda>loc. (location_id loc, capacity loc - current_occupancy loc))
         (candidateLocations (reading_db 200 800 3000) ColdStorage 10)
       = [(3, 90), (2, 68)]
   \<and> findSuitableLocation (reading_db 200 800 3000) 2 10
       = Inr (Some (storage_locations (reading_db 200 800 3000) ! 2))
   \<and> allocate (storage_locations (reading_db 200 800 3000)) ColdStorage 10
       = Some (storage_locations (reading_db 200 800 3000) ! 1)
   \<and> decimal_text (- 100) = ''-1.00'' \<and> decimal_text (- 200) = ''-2.00''
   \<and> decimal_text 400 = ''4.00''
   \<and> findSuitableLocation (reading_db (- 200) 400 (- 100)) 2 10
       = Inr (Some (storage_locations (reading_db (- 200) 400 (- 100)) ! 1))
   \<and> allocate (storage_locations (reading_db (- 200) 400 (- 100))) ColdStorage 10
       = Some (storage_locations (reading_db (- 200) 400 (- 100)) ! 2)"
proof -
  have texts: "decimal_text 3000 = ''30.00''" "decimal_text 200 = ''2.00''"
    "decimal_text 800 = ''8.00''" "decimal_text (- 100) = ''-1.00''"
    "decimal_text (- 200) = ''-2.00''" "decimal_text 400 = ''4.00''"
    by (simp_all add: decimal_text_def)
  have cands: "map (\<lambda>loc. (location_id loc, capacity loc - current_occupancy loc))
         (candidateLocations (reading_db 200 800 3000) ColdStorage 10)
       = [(3, 90), (2, 68)]"
    by (simp add: sample_defs reading_db_def candidateLocations_def)
  have code_hot: "findSuitableLocation (reading_db 200 800 3000) 2 10
       = Inr (Some (storage_locations (reading_db 200 800 3000) ! 2))"
    by (simp add: sample_defs temperature_defs findSuitableLocation_def candidateLocations_def)
  have spec_hot: "allocate (storage_locations (reading_db 200 800 3000)) ColdStorage 10
       = Some (storage_locations (reading_db 200 800 3000) ! 1)"
    by (simp add: sample_defs reading_db_def allocate_def eligible_def free_capacity_def
                  temperature_gate_def within_range_def)
  have code_cold: "findSuitableLocation (reading_db (- 200) 400 (- 100)) 2 10
       = Inr (Some (storage_locations (reading_db (- 200) 400 (- 100)) ! 1))"
    by (simp add: sample_defs temperature_defs findSuitableLocation_def candidateLocations_def)
  have spec_cold: "allocate (storage_locations (reading_db (- 200) 400 (- 100))) ColdStorage 10
       = Some (storage_locations (reading_db (- 200) 400 (- 100)) ! 2)"
    by (simp add: sample_defs reading_db_def allocate_def eligible_def free_capacity_def
                  temperature_gate_def within_range_def)
  from texts cands code_hot spec_hot code_cold spec_cold show ?thesis by simp
qed

section \<open>Barcode verification\<close>

lemma batchRows_unknown:
  "code \<notin> set (map barcode (batches db)) \<Longrightarrow> batchRows db code = []"
proof -
  assume "code \<notin> set (map barcode (batches db))"
  then have "filter (\<lambda>b. barcode b = code) (batches db) = []"
    by (auto simp: filter_empty_conv)
  then show ?thesis by (simp add: batchRows_def)
qed

text \<open>
  Claim C10. When no batch carries the barcode, the verification is exactly
  \<open>isValid = false\<close> with the one message \<open>Barcode not found.\<close> (no batch and no
  pending picks attached), and the store is left as it was.
\<close>

theorem verifyBarcode_unknown:
  assumes "code \<notin> set (map barcode (batches db))"
  shows "verifyBarcode db localeDate today code =
           (\<lparr>isValid = False, messages = [''Barcode not found.''],
             verified = None, pendingPicks = None\<rparr>, db)"
  using batchRows_unknown[OF assms]
  by (simp add: verifyBarcode_def verificationResult_def)

theorem verifyBarcode_unknown_witness:
  "''NO-SUCH-CODE'' \<notin> set (map barcode (batches sample_db))
   \<and> verifyBarcode sample_db (\<lambda>d. show_nat d) 20100 ''NO-SUCH-CODE'' =
           (\<lparr>isValid = False, messages = [''Barcode not found.''],
             verified = None, pendingPicks = None\<rparr>, sample_db)"
proof -
  have h: "''NO-SUCH-CODE'' \<notin> set (map barcode (batches sample_db))"
    by (simp add: sample_defs)
  from verifyBarcode_unknown[OF h] h show ?thesis by simp
qed

section \<open>Deleting a batch\<close>

lemma adjust_occupancy_Some:
  "l \<noteq> 0 \<Longrightarrow> adjust_occupancy db (Some l) d = add_occupancy db l d"
  by (simp add: adjust_occupancy_def js_truthy_def)

lemma adjust_occupancy_locations:
  "a \<noteq> Some 0 \<Longrightarrow>
   storage_locations (adjust_occupancy db a d) =
     map (\<lambda>loc. if a = Some (location_id loc)
                then loc\<lparr>current_occupancy := current_occupancy loc + d\<rparr> else loc)
       (storage_locations db)"
  by (cases a) (auto simp: adjust_occupancy_def js_truthy_def add_occupancy_def)

lemma adjust_occupancy_others [simp]:
  "products (adjust_occupancy db a d) = products db"
  "batches (adjust_occupancy db a d) = batches db"
  "orders (adjust_occupancy db a d) = orders db"
  "order_items (adjust_occupancy db a d) = order_items db"
  "order_batch_picks (adjust_occupancy db a d) = order_batch_picks db"
  "next_batch_id (adjust_occupancy db a d) = next_batch_id db"
  "next_location_id (adjust_occupancy db a d) = next_location_id db"
  "next_pick_id (adjust_occupancy db a d) = next_pick_id db"
  "next_order_id (adjust_occupancy db a d) = next_order_id db"
  "next_order_item_id (adjust_occupancy db a d) = next_order_item_id db"
  "next_product_id (adjust_occupancy db a d) = next_product_id db"
  by (auto simp: adjust_occupancy_def add_occupancy_def split: option.splits)

text \<open>
  Claim C7. In a store that satisfies the schema, deleting a batch that exists succeeds,
  removes every pick of that batch (whatever the status of the pick's order), removes the
  batch, and lowers the occupancy of the batch's assigned location by exactly the batch's
  quantity, leaving every other location and table alone; deleting a batch that does not
  exist answers not-found and leaves the store as it was.
\<close>

theorem deleteBatches_cascade:
  assumes "schema_ok db"
  shows "(\<forall>row. find (\<lambda>b. batch_id b = ident) (batches db) = Some row \<longrightarrow>
            fst (deleteBatches db ident) = Inr ident
          \<and> order_batch_picks (snd (deleteBatches db ident))
              = filter (\<lambda>p. p_batch_id p \<noteq> ident) (order_batch_picks db)
          \<and> batches (snd (deleteBatches db ident))
              = filter (\<lambda>b. batch_id b \<noteq> ident) (batches db)
          \<and> storage_locations (snd (deleteBatches db ident))
              = map (\<lambda>loc. if assigned_location_id row = Some (location_id loc)
                           then loc\<lparr>current_occupancy := current_occupancy loc - quantity row\<rparr>
                           else loc)
                  (storage_locations db)
          \<and> products (snd (deleteBatches db ident)) = products db
          \<and> orders (snd (deleteBatches db ident)) = orders db
          \<and> order_items (snd (deleteBatches db ident)) = order_items db)
       \<and> (find (\<lambda>b. batch_id b = ident) (batches db) = None \<longrightarrow>
            deleteBatches db ident = (Inl BatchNotFound, db))"
proof (intro conjI allI impI)
  assume "find (\<lambda>b. batch_id b = ident) (batches db) = None"
  then show "deleteBatches db ident = (Inl BatchNotFound, db)"
    by (simp add: deleteBatches_def)
next
  fix row
  assume f: "find (\<lambda>b. batch_id b = ident) (batches db) = Some row"
  then have mem: "row \<in> set (batches db)" and rid: "batch_id row = ident"
    by (auto dest: find_Some_mem)
  from mem assms have a0: "assigned_location_id row \<noteq> Some 0"
    by (auto simp: schema_ok_def)
  from mem rid have ne: "filter (\<lambda>b. batch_id b = ident) (batches db) \<noteq> []"
    by (auto simp: filter_empty_conv)
  let ?db2 = "db\<lparr>order_batch_picks := filter (\<lambda>p. p_batch_id p \<noteq> ident) (order_batch_picks db),
                  batches := filter (\<lambda>b. batch_id b \<noteq> ident) (batches db)\<rparr>"
  have d: "deleteBatches db ident = (Inr ident, adjust_occupancy ?db2 (assigned_location_id row) (- quantity row))"
    using f ne by (simp add: deleteBatches_def Let_def)
  show "fst (deleteBatches db ident) = Inr ident" by (simp add: d)
  show "order_batch_picks (snd (deleteBatches db ident))
              = filter (\<lambda>p. p_batch_id p \<noteq> ident) (order_batch_picks db)" by (simp add: d)
  show "batches (snd (deleteBatches db ident))
              = filter (\<lambda>b. batch_id b \<noteq> ident) (batches db)" by (simp add: d)
  show "products (snd (deleteBatches db ident)) = products db" by (simp add: d)
  show "orders (snd (deleteBatches db ident)) = orders db" by (simp add: d)
  show "order_items (snd (deleteBatches db ident)) = order_items db" by (simp add: d)
  show "storage_locations (snd (deleteBatches db ident))
              = map (\<lambda>loc. if assigned_location_id row = Some (location_id loc)
                           then loc\<lparr>current_occupancy := current_occupancy loc - quantity row\<rparr>
                           else loc)
                  (storage_locations db)"
    by (simp add: d adjust_occupancy_locations[OF a0])
qed

lemma sample_schema_ok: "schema_ok sample_db"
  by (simp add: schema_ok_def sample_defs)

text \<open>
  In the sample store batch 3 has quantity 12 at location 2 and a pending pick in the
  pending order 1: deleting it removes the pick and takes 12 from location 2.
\<close>

theorem deleteBatches_cascade_witness:
  "schema_ok sample_db
   \<and> map quantity (filter (\<lambda>b. batch_id b = 3) (batches sample_db)) = [12]
   \<and> map order_status (orders sample_db) = [Pending]
   \<and> map pick_content (order_batch_picks sample_db) = [(1, 3, 3, PendingPick)]
   \<and> map current_occupancy (storage_locations sample_db) = [10, 12, 0]
   \<and> fst (deleteBatches sample_db 3) = Inr 3
   \<and> order_batch_picks (snd (deleteBatches sample_db 3)) = []
   \<and> map batch_id (batches (snd (deleteBatches sample_db 3))) = [1, 2]
   \<and> map current_occupancy (storage_locations (snd (deleteBatches sample_db 3))) = [10, 0, 0]
   \<and> deleteBatches sample_db 7 = (Inl BatchNotFound, sample_db)"
proof -
  have f3: "find (\<lambda>b. batch_id b = 3) (batches sample_db) = Some vaccine_batch"
    by (simp add: sample_defs)
  have f7: "find (\<lambda>b. batch_id b = 7) (batches sample_db) = None"
    by (simp add: sample_defs)
  note t3 = deleteBatches_cascade[OF sample_schema_ok, of 3, THEN conjunct1, rule_format, OF f3]
  note t7 = deleteBatches_cascade[OF sample_schema_ok, of 7, THEN conjunct2, rule_format, OF f7]
  have pre: "map quantity (filter (\<lambda>b. batch_id b = 3) (batches sample_db)) = [12]
   \<and> map order_status (orders sample_db) = [Pending]
   \<and> map pick_content (order_batch_picks sample_db) = [(1, 3, 3, PendingPick)]
   \<and> map current_occupancy (storage_locations sample_db) = [10, 12, 0]"
    by (simp add: sample_defs pick_content_def)
  have post: "order_batch_picks (snd (deleteBatches sample_db 3)) = []
   \<and> map batch_id (batches (snd (deleteBatches sample_db 3))) = [1, 2]
   \<and> map current_occupancy (storage_locations (snd (deleteBatches sample_db 3))) = [10, 0, 0]"
    using t3 by (simp add: sample_defs)
  from pre post t3 t7 sample_schema_ok show ?thesis by simp
qed

section \<open>Temperature alerts\<close>

text \<open>
  Claim C9 fails where the handler names the alert. The query selects the rows by
  number, as the claim says, but the handler compares the reading with the bounds as
  strings. Two and a half hours after the epoch, with readings half an hour old:
  location 3 reading 10.00 against 2.00 to 8.00 is selected (10 > 8) and then named Low
  Temperature, because \<open>'10.00' < '2.00'\<close>, where the specification's \<open>classify\<close>
  says High Temperature; reading 30.00 it is selected and left with the empty alert
  type, because neither \<open>'30.00' < '2.00'\<close> nor \<open>'30.00' > '8.00'\<close> holds.
\<close>

theorem alerts_compare_temperatures_as_strings:
  "decimal_text 1000 = ''10.00'' \<and> decimal_text 3000 = ''30.00''
   \<and> decimal_text 200 = ''2.00'' \<and> decimal_text 800 = ''8.00''
   \<and> map (\<lambda>a. (alert_location_id a, alert_kind a))
         (temperatureAlerts (reading_db 200 800 1000) 9000000 9000005)
       = [(3, LowTemperature)]
   \<and> map (classify 9000000) (storage_locations (reading_db 200 800 1000))
       = [None, None, Some HighTemperature]
   \<and> map (\<lambda>a. (alert_location_id a, alert_kind a))
         (temperatureAlerts (reading_db 200 800 3000) 9000000 9000005)
       = [(3, NoAlertType)]
   \<and> map (classify 9000000) (storage_locations (reading_db 200 800 3000))
       = [None, None, Some HighTemperature]"
proof -
  have texts: "decimal_text 1000 = ''10.00''" "decimal_text 3000 = ''30.00''"
    "decimal_text 200 = ''2.00''" "decimal_text 800 = ''8.00''"
    by (simp_all add: decimal_text_def)
  have code_ten: "map (\<lambda>a. (alert_location_id a, alert_kind a))
         (temperatureAlerts (reading_db 200 800 1000) 9000000 9000005)
       = [(3, LowTemperature)]"
    by (simp add: sample_defs reading_db_def temperatureAlerts_def alert_rows_def sql_less_def
                  format_alert_def js_less_def js_to_number_def decimal_text_def)
  have spec_ten: "map (classify 9000000) (storage_locations (reading_db 200 800 1000))
       = [None, None, Some HighTemperature]"
    by (simp add: sample_defs reading_db_def classify_def sql_less_def)
  have code_thirty: "map (\<lambda>a. (alert_location_id a, alert_kind a))
         (temperatureAlerts (reading_db 200 800 3000) 9000000 9000005)
       = [(3, NoAlertType)]"
    by (simp add: sample_defs reading_db_def temperatureAlerts_def alert_rows_def sql_less_def
                  format_alert_def js_less_def js_to_number_def decimal_text_def)
  have spec_thirty: "map (classify 9000000) (storage_locations (reading_db 200 800 3000))
       = [None, None, Some HighTemperature]"
    by (simp add: sample_defs reading_db_def classify_def sql_less_def)
  from texts code_ten spec_ten code_thirty spec_thirty show ?thesis by simp
qed

section \<open>FEFO fulfillment of an order item\<close>

lemma adjust_occupancy_map:
  "storage_locations (adjust_occupancy db a d) =
     map (\<lambda>loc. if location_id loc \<noteq> 0 \<and> a = Some (location_id loc)
                then loc\<lparr>current_occupancy := current_occupancy loc + d\<rparr> else loc)
       (storage_locations db)"
  by (cases a) (auto simp: adjust_occupancy_def js_truthy_def add_occupancy_def intro: map_idI[symmetric])

lemma reduce_batch_quantity_fields [simp]:
  "products (reduce_batch_quantity db b t) = products db"
  "storage_locations (reduce_batch_quantity db b t) = storage_locations db"
  "orders (reduce_batch_quantity db b t) = orders db"
  "order_items (reduce_batch_quantity db b t) = order_items db"
  "order_batch_picks (reduce_batch_quantity db b t) = order_batch_picks db"
  "next_batch_id (reduce_batch_quantity db b t) = next_batch_id db"
  "next_location_id (reduce_batch_quantity db b t) = next_location_id db"
  "next_order_id (reduce_batch_quantity db b t) = next_order_id db"
  "batches (reduce_batch_quantity db b t) =
     map (\<lambda>x. if batch_id x = b then x\<lparr>quantity := quantity x - t\<rparr> else x) (batches db)"
  by (simp_all add: reduce_batch_quantity_def)

lemma insert_pick_fields:
  assumes "insert_pick db oid b t = Inr db1"
  shows "products db1 = products db" "storage_locations db1 = storage_locations db"
        "batches db1 = batches db" "orders db1 = orders db" "order_items db1 = order_items db"
        "next_batch_id db1 = next_batch_id db" "next_location_id db1 = next_location_id db"
        "next_order_id db1 = next_order_id db"
        "map pick_content (order_batch_picks db1)
           = map pick_content (order_batch_picks db) @ [(oid, b, t, PendingPick)]"
  using assms by (auto simp: insert_pick_def pick_content_def split: if_splits)

lemma taken_from_batch_Cons:
  "taken_from_batch (e # plan) i
     = (if batch_id (fst e) = i then snd e else 0) + taken_from_batch plan i"
  by (simp add: taken_from_batch_def)

lemma taken_from_location_Cons:
  "taken_from_location (e # plan) l
     = (if l \<noteq> 0 \<and> assigned_location_id (fst e) = Some l then snd e else 0)
       + taken_from_location plan l"
  by (simp add: taken_from_location_def)

lemma taken_Nil [simp]: "taken_from_batch [] i = 0" "taken_from_location [] l = 0"
  by (simp_all add: taken_from_batch_def taken_from_location_def)

lemma pick_loop_plan:
  "pick_loop db oid cs r = Inr (db', r') \<Longrightarrow>
     map pick_content (order_batch_picks db')
       = map pick_content (order_batch_picks db) @ map (pick_of_plan oid) (fefo_plan r cs)
   \<and> batches db'
       = map (\<lambda>b. b\<lparr>quantity := quantity b - taken_from_batch (fefo_plan r cs) (batch_id b)\<rparr>)
           (batches db)
   \<and> storage_locations db'
       = map (\<lambda>loc. loc\<lparr>current_occupancy :=
                          current_occupancy loc
                            - taken_from_location (fefo_plan r cs) (location_id loc)\<rparr>)
           (storage_locations db)
   \<and> r' = r - sum_list (map snd (fefo_plan r cs))
   \<and> products db' = products db \<and> orders db' = orders db \<and> order_items db' = order_items db"
proof (induction cs arbitrary: db r)
  case Nil
  then show ?case by simp
next
  case (Cons c cs)
  show ?case
  proof (cases "r \<le> 0")
    case True
    with Cons.prems show ?thesis by simp
  next
    case False
    let ?t = "min r (quantity c)"
    from Cons.prems False obtain db1 where ins: "insert_pick db oid (batch_id c) ?t = Inr db1"
      by (auto simp: Let_def split: sum.splits)
    let ?db3 = "adjust_occupancy (reduce_batch_quantity db1 (batch_id c) ?t)
                  (assigned_location_id c) (- ?t)"
    from Cons.prems False ins have rest: "pick_loop ?db3 oid cs (r - ?t) = Inr (db', r')"
      by (simp add: Let_def)
    note ih = Cons.IH[OF rest]
    note f = insert_pick_fields[OF ins]
    have plan: "fefo_plan r (c # cs) = (c, ?t) # fefo_plan (r - ?t) cs"
      using False by simp
    have p: "map pick_content (order_batch_picks db')
       = map pick_content (order_batch_picks db) @ map (pick_of_plan oid) (fefo_plan r (c # cs))"
      using ih f False by (simp add:  pick_of_plan_def)
    have b: "batches db'
       = map (\<lambda>b. b\<lparr>quantity := quantity b - taken_from_batch (fefo_plan r (c # cs)) (batch_id b)\<rparr>)
           (batches db)"
      using ih f False by (simp add:  taken_from_batch_Cons o_def cong: map_cong)
    have l: "storage_locations db'
       = map (\<lambda>loc. loc\<lparr>current_occupancy :=
                          current_occupancy loc
                            - taken_from_location (fefo_plan r (c # cs)) (location_id loc)\<rparr>)
           (storage_locations db)"
      using ih f False by (simp add:  taken_from_location_Cons adjust_occupancy_map o_def)
    have r: "r' = r - sum_list (map snd (fefo_plan r (c # cs)))"
      using ih False by simp
    from p b l r ih f show ?thesis by simp
  qed
qed

lemma fefo_plan_nonpos: "r \<le> 0 \<Longrightarrow> fefo_plan r cs = []"
  by (cases cs) auto

lemma fefo_plan_sum_le: "0 \<le> r \<Longrightarrow> sum_list (map snd (fefo_plan r cs)) \<le> r"
proof (induction cs arbitrary: r)
  case Nil
  then show ?case by simp
next
  case (Cons c cs)
  have "0 \<le> r - min r (quantity c)" by simp
  from Cons.IH[OF this] Cons.prems show ?case by simp
qed

lemma availableBatches_set:
  "set (availableBatches db productId)
     = {b \<in> set (batches db). b_product_id b = productId \<and> 0 < quantity b \<and> status b = Available}"
  by (auto simp: availableBatches_def)

lemma availableBatches_sorted: "sorted (map expiry_date (availableBatches db productId))"
  by (simp add: availableBatches_def)

lemma insert_order_item_fields:
  assumes "insert_order_item db oid pid q = Inr db1"
  shows "products db1 = products db" "storage_locations db1 = storage_locations db"
        "batches db1 = batches db" "orders db1 = orders db"
        "order_batch_picks db1 = order_batch_picks db"
        "next_batch_id db1 = next_batch_id db" "next_location_id db1 = next_location_id db"
        "next_order_id db1 = next_order_id db"
        "map item_content (order_items db1) = map item_content (order_items db) @ [(oid, pid, q)]"
        "pid \<in> set (map product_id (products db))"
  using assms by (auto simp: insert_order_item_def item_content_def split: if_splits)

lemma availableBatches_cong:
  "batches db1 = batches db \<Longrightarrow> availableBatches db1 pid = availableBatches db pid"
  by (simp add: availableBatches_def)

lemma process_item_Inr:
  assumes "process_item db oid (pid, q) = Inr db'"
  obtains db1 where "pid \<noteq> 0" "0 < q" "insert_order_item db oid pid q = Inr db1"
    "pick_loop db1 oid (availableBatches db pid) q = Inr (db', q - sum_list (map snd (fefo_plan q (availableBatches db pid))))"
    "sum_list (map snd (fefo_plan q (availableBatches db pid))) = q"
proof -
  from assms have v: "pid \<noteq> 0" "0 < q"
    by (auto simp: process_item_def split: if_splits)
  with assms obtain db1 where i: "insert_order_item db oid pid q = Inr db1"
    by (auto simp: process_item_def split: sum.splits)
  have av: "availableBatches db1 pid = availableBatches db pid"
    by (rule availableBatches_cong) (rule insert_order_item_fields[OF i])
  from assms v i obtain r where l: "pick_loop db1 oid (availableBatches db pid) q = Inr (db', r)"
    and r: "r \<le> 0"
    by (auto simp: process_item_def av split: sum.splits if_splits)
  from pick_loop_plan[OF l] have r': "r = q - sum_list (map snd (fefo_plan q (availableBatches db pid)))"
    by simp
  from v have "sum_list (map snd (fefo_plan q (availableBatches db pid))) \<le> q"
    by (intro fefo_plan_sum_le) simp
  with r r' have "sum_list (map snd (fefo_plan q (availableBatches db pid))) = q" by simp
  with that[OF v i] l r' show thesis by simp
qed

text \<open>
  Claim C2. When an order item (product, quantity) is fulfilled, its candidates are
  exactly the batches of the product with a positive quantity and status Available, in
  ascending order of expiry date; the picks added are those of the FEFO plan over the
  candidates (each candidate in order gives \<open>min remaining quantity\<close>, until nothing
  remains), each with status Pending Pick for this order; every batch loses what the
  plan takes from it, every location what the plan takes from the batches assigned to it
  (nothing for a batch without a location), and the plan adds up to the quantity asked.
\<close>

theorem fefo_fulfillment:
  assumes "process_item db orderId (productId, qty) = Inr db'"
  shows "set (availableBatches db productId)
           = {b \<in> set (batches db).
                b_product_id b = productId \<and> 0 < quantity b \<and> status b = Available}
       \<and> sorted (map expiry_date (availableBatches db productId))
       \<and> map pick_content (order_batch_picks db')
           = map pick_content (order_batch_picks db)
             @ map (pick_of_plan orderId) (fefo_plan qty (availableBatches db productId))
       \<and> batches db'
           = map (\<lambda>b. b\<lparr>quantity :=
                          quantity b
                            - taken_from_batch (fefo_plan qty (availableBatches db productId))
                                (batch_id b)\<rparr>)
               (batches db)
       \<and> storage_locations db'
           = map (\<lambda>loc. loc\<lparr>current_occupancy :=
                              current_occupancy loc
                                - taken_from_location (fefo_plan qty (availableBatches db productId))
                                    (location_id loc)\<rparr>)
               (storage_locations db)
       \<and> sum_list (map snd (fefo_plan qty (availableBatches db productId))) = qty"
proof -
  from assms obtain db1 where i: "insert_order_item db orderId productId qty = Inr db1"
    and l: "pick_loop db1 orderId (availableBatches db productId) qty
              = Inr (db', qty - sum_list (map snd (fefo_plan qty (availableBatches db productId))))"
    and s: "sum_list (map snd (fefo_plan qty (availableBatches db productId))) = qty"
    by (rule process_item_Inr)
  note f = insert_order_item_fields[OF i]
  from pick_loop_plan[OF l] f s availableBatches_set[of db productId]
       availableBatches_sorted[of db productId]
  show ?thesis by simp
qed

lemmas order_eval_defs =
  process_item_def insert_order_item_def availableBatches_def insert_pick_def
  reduce_batch_quantity_def adjust_occupancy_def add_occupancy_def js_truthy_def
  postOrders_def insert_order_def

text \<open>
  The example of the specification, in the sample store: product 1 has a batch of 5
  expiring 2025-02-01 (batch 1) and a batch of 5 expiring 2025-01-01 (batch 2). Order 2
  for 7 units picks 5 from batch 2, then 2 from batch 1, and takes 7 from location 1; the
  same picks come out of POST /orders.
\<close>

theorem fefo_fulfillment_witness:
  "(\<exists>db'. process_item sample_db 2 (1, 7) = Inr db'
     \<and> map (\<lambda>b. (batch_id b, expiry_date b, quantity b)) (availableBatches sample_db 1)
         = [(2, 20089, 5), (1, 20120, 5)]
     \<and> map pick_content (order_batch_picks db')
         = [(1, 3, 3, PendingPick), (2, 2, 5, PendingPick), (2, 1, 2, PendingPick)]
     \<and> map quantity (batches db') = [3, 0, 12]
     \<and> map current_occupancy (storage_locations db') = [3, 12, 0])
   \<and> fst (postOrders sample_db 0 [(1, 7)]) = Inr 2
   \<and> map pick_content (order_batch_picks (snd (postOrders sample_db 0 [(1, 7)])))
       = [(1, 3, 3, PendingPick), (2, 2, 5, PendingPick), (2, 1, 2, PendingPick)]"
proof -
  have "\<exists>db'. process_item sample_db 2 (1, 7) = Inr db'"
    by (simp add: sample_defs order_eval_defs)
  then obtain db' where p: "process_item sample_db 2 (1, 7) = Inr db'" ..
  have c: "map (\<lambda>b. (batch_id b, expiry_date b, quantity b)) (availableBatches sample_db 1)
         = [(2, 20089, 5), (1, 20120, 5)]"
    by (simp add: sample_defs availableBatches_def)
  have plan: "map (pick_of_plan 2) (fefo_plan 7 (availableBatches sample_db 1))
         = [(2, 2, 5, PendingPick), (2, 1, 2, PendingPick)]"
    by (simp add: sample_defs availableBatches_def pick_of_plan_def)
  have old: "map pick_content (order_batch_picks sample_db) = [(1, 3, 3, PendingPick)]"
    by (simp add: sample_defs pick_content_def)
  have q: "map (\<lambda>b. quantity b - taken_from_batch (fefo_plan 7 (availableBatches sample_db 1)) (batch_id b))
             (batches sample_db) = [3, 0, 12]"
    by (simp add: sample_defs availableBatches_def taken_from_batch_def)
  have o: "map (\<lambda>loc. current_occupancy loc
                 - taken_from_location (fefo_plan 7 (availableBatches sample_db 1)) (location_id loc))
             (storage_locations sample_db) = [3, 12, 0]"
    by (simp add: sample_defs availableBatches_def taken_from_location_def)
  note t = fefo_fulfillment[OF p]
  have "map pick_content (order_batch_picks db')
         = [(1, 3, 3, PendingPick), (2, 2, 5, PendingPick), (2, 1, 2, PendingPick)]"
    using t plan old by simp
  moreover have "map quantity (batches db') = [3, 0, 12]"
    using t q by (simp add: o_def)
  moreover have "map current_occupancy (storage_locations db') = [3, 12, 0]"
    using t o by (simp add: o_def)
  ultimately have first: "\<exists>db'. process_item sample_db 2 (1, 7) = Inr db'
     \<and> map (\<lambda>b. (batch_id b, expiry_date b, quantity b)) (availableBatches sample_db 1)
         = [(2, 20089, 5), (1, 20120, 5)]
     \<and> map pick_content (order_batch_picks db')
         = [(1, 3, 3, PendingPick), (2, 2, 5, PendingPick), (2, 1, 2, PendingPick)]
     \<and> map quantity (batches db') = [3, 0, 12]
     \<and> map current_occupancy (storage_locations db') = [3, 12, 0]"
    using p c by (intro exI[of _ db']) simp
  have second: "fst (postOrders sample_db 0 [(1, 7)]) = Inr 2
   \<and> map pick_content (order_batch_picks (snd (postOrders sample_db 0 [(1, 7)])))
       = [(1, 3, 3, PendingPick), (2, 2, 5, PendingPick), (2, 1, 2, PendingPick)]"
    by (simp add: sample_defs order_eval_defs pick_content_def)
  from first second show ?thesis by (rule conjI)
qed

section \<open>Expired stock\<close>

lemma sorted_partition:
  "sorted (map k xs) \<Longrightarrow> filter (\<lambda>x. k x < d) xs @ filter (\<lambda>x. d \<le> k x) xs = xs"
proof (induction xs)
  case Nil
  then show ?case by simp
next
  case (Cons x xs)
  show ?case
  proof (cases "k x < d")
    case True
    with Cons show ?thesis by simp
  next
    case False
    with Cons.prems have "\<forall>y \<in> set xs. \<not> k y < d" by auto
    then have "filter (\<lambda>x. k x < d) xs = []" "filter (\<lambda>x. d \<le> k x) xs = xs"
      by (auto simp: filter_empty_conv filter_id_conv)
    with False show ?thesis by simp
  qed
qed

text \<open>
  When the plan reaches a batch behind a prefix of the candidates, every batch of the
  prefix has given its whole quantity.
\<close>

lemma fefo_plan_prefix_full:
  assumes "(u, t) \<in> set (fefo_plan r (xs @ ys))" and "u \<notin> set xs"
      and "\<forall>x \<in> set xs. 0 < quantity x"
  shows "fefo_plan r (xs @ ys)
           = map (\<lambda>x. (x, quantity x)) xs @ fefo_plan (r - sum_list (map quantity xs)) ys"
  using assms
proof (induction xs arbitrary: r)
  case Nil
  then show ?case by simp
next
  case (Cons x xs)
  from Cons.prems(1) have pos: "\<not> r \<le> 0"
    by (auto simp: fefo_plan_nonpos)
  with Cons.prems have rest: "(u, t) \<in> set (fefo_plan (r - min r (quantity x)) (xs @ ys))"
    by auto
  then have "\<not> r - min r (quantity x) \<le> 0"
    by (auto simp: fefo_plan_nonpos)
  then have m: "min r (quantity x) = quantity x" by simp
  from Cons.prems have "u \<notin> set xs" "\<forall>x \<in> set xs. 0 < quantity x" by auto
  from Cons.IH[OF rest this] pos m show ?case
    by (simp add: algebra_simps)
qed

text \<open>
  Claim C8. The candidate query does not look at today's date: a batch of the product
  that is Available with a positive quantity is a candidate although its expiry date is
  before \<open>today\<close>; in the candidate list all expired batches stand before all the
  others; and when a fulfilled item takes anything from a batch that has not expired, the
  picks of the item are those of the plan, in which the expired batch stands earlier and
  with its whole quantity.
\<close>

theorem expired_batches_first:
  assumes "b \<in> set (batches db)" and "b_product_id b = productId" and "0 < quantity b"
      and "status b = Available" and "expiry_date b < today"
  shows "b \<in> set (availableBatches db productId)
       \<and> availableBatches db productId
           = filter (\<lambda>c. expiry_date c < today) (availableBatches db productId)
             @ filter (\<lambda>c. today \<le> expiry_date c) (availableBatches db productId)
       \<and> (\<forall>db' u t.
             process_item db orderId (productId, qty) = Inr db'
             \<and> (u, t) \<in> set (fefo_plan qty (availableBatches db productId))
             \<and> today \<le> expiry_date u
             \<longrightarrow> map pick_content (order_batch_picks db')
                   = map pick_content (order_batch_picks db)
                     @ map (pick_of_plan orderId) (fefo_plan qty (availableBatches db productId))
                 \<and> (\<exists>pre mid post.
                       fefo_plan qty (availableBatches db productId)
                         = pre @ (b, quantity b) # mid @ (u, t) # post))"
proof (intro conjI allI impI)
  let ?cs = "availableBatches db productId"
  let ?E = "filter (\<lambda>c. expiry_date c < today) ?cs"
  let ?U = "filter (\<lambda>c. today \<le> expiry_date c) ?cs"
  from assms show mem: "b \<in> set ?cs"
    by (simp add: availableBatches_set)
  show part: "?cs = ?E @ ?U"
    using sorted_partition[OF availableBatches_sorted, of today db productId] by simp
  fix db' u t
  assume h: "process_item db orderId (productId, qty) = Inr db'
             \<and> (u, t) \<in> set (fefo_plan qty ?cs) \<and> today \<le> expiry_date u"
  then obtain db1 where i: "insert_order_item db orderId productId qty = Inr db1"
    and l: "pick_loop db1 orderId ?cs qty
              = Inr (db', qty - sum_list (map snd (fefo_plan qty ?cs)))"
    by (auto elim: process_item_Inr)
  from pick_loop_plan[OF l] insert_order_item_fields[OF i]
  show "map pick_content (order_batch_picks db')
          = map pick_content (order_batch_picks db) @ map (pick_of_plan orderId) (fefo_plan qty ?cs)"
    by simp
  from h have u: "(u, t) \<in> set (fefo_plan qty (?E @ ?U))" "u \<notin> set ?E"
    using part by auto
  have pos: "\<forall>x \<in> set ?E. 0 < quantity x"
    by (auto simp: availableBatches_set)
  from fefo_plan_prefix_full[OF u pos]
  have plan: "fefo_plan qty ?cs
          = map (\<lambda>x. (x, quantity x)) ?E @ fefo_plan (qty - sum_list (map quantity ?E)) ?U"
    using part by simp
  from mem assms(5) have "b \<in> set ?E" by simp
  then obtain E1 E2 where E: "?E = E1 @ b # E2"
    by (auto dest: split_list)
  from h have "(u, t) \<in> set (fefo_plan qty ?cs)" by simp
  then have "(u, t) \<in> set (map (\<lambda>x. (x, quantity x)) ?E)
               \<union> set (fefo_plan (qty - sum_list (map quantity ?E)) ?U)"
    by (simp only: plan set_append)
  moreover from u(2) have "(u, t) \<notin> set (map (\<lambda>x. (x, quantity x)) ?E)"
    by (auto simp del: set_filter)
  ultimately have "(u, t) \<in> set (fefo_plan (qty - sum_list (map quantity ?E)) ?U)"
    by blast
  then obtain P1 P2 where P: "fefo_plan (qty - sum_list (map quantity ?E)) ?U = P1 @ (u, t) # P2"
    by (auto dest: split_list)
  have "fefo_plan qty ?cs = map (\<lambda>x. (x, quantity x)) ?E @ P1 @ (u, t) # P2"
    by (simp only: plan P)
  then have "fefo_plan qty ?cs
          = map (\<lambda>x. (x, quantity x)) E1 @ (b, quantity b)
              # (map (\<lambda>x. (x, quantity x)) E2 @ P1) @ (u, t) # P2"
    by (simp add: E)
  then show "\<exists>pre mid post. fefo_plan qty ?cs = pre @ (b, quantity b) # mid @ (u, t) # post"
    by blast
qed

text \<open>
  In the sample store on day 20100 (2025-01-12) batch 2 has expired and batch 1 has not:
  the order for 7 takes all 5 of batch 2 before it takes 2 of batch 1.
\<close>

theorem expired_batches_first_witness:
  "glove_batch_early \<in> set (batches sample_db)
   \<and> b_product_id glove_batch_early = 1 \<and> 0 < quantity glove_batch_early
   \<and> status glove_batch_early = Available
   \<and> expiry_date glove_batch_early < 20100 \<and> 20100 \<le> expiry_date glove_batch_late
   \<and> glove_batch_early \<in> set (availableBatches sample_db 1)
   \<and> (\<exists>db'. process_item sample_db 2 (1, 7) = Inr db')
   \<and> (\<exists>pre mid post.
         fefo_plan 7 (availableBatches sample_db 1)
           = pre @ (glove_batch_early, 5) # mid @ (glove_batch_late, 2) # post)"
proof -
  have h: "glove_batch_early \<in> set (batches sample_db)" "b_product_id glove_batch_early = 1"
    "0 < quantity glove_batch_early" "status glove_batch_early = Available"
    "expiry_date glove_batch_early < 20100"
    by (simp_all add: sample_defs)
  have l: "20100 \<le> expiry_date glove_batch_late" by (simp add: sample_defs)
  have q: "quantity glove_batch_early = 5" by (simp add: sample_defs)
  have "\<exists>db'. process_item sample_db 2 (1, 7) = Inr db'"
    by (simp add: sample_defs order_eval_defs)
  then obtain db' where p: "process_item sample_db 2 (1, 7) = Inr db'" ..
  have u: "(glove_batch_late, 2) \<in> set (fefo_plan 7 (availableBatches sample_db 1))"
    by (simp add: sample_defs availableBatches_def)
  note t = expired_batches_first[OF h, of 2 7]
  from t have m: "glove_batch_early \<in> set (availableBatches sample_db 1)" by simp
  from t p u l have "\<exists>pre mid post.
         fefo_plan 7 (availableBatches sample_db 1)
           = pre @ (glove_batch_early, quantity glove_batch_early) # mid @ (glove_batch_late, 2) # post"
    by blast
  with q have e: "\<exists>pre mid post.
         fefo_plan 7 (availableBatches sample_db 1)
           = pre @ (glove_batch_early, 5) # mid @ (glove_batch_late, 2) # post"
    by simp
  from h l m p e show ?thesis by blast
qed

section \<open>The occupancy ledger\<close>

lemma assigned_quantity_append:
  "assigned_quantity (bs @ [b]) l
     = assigned_quantity bs l + (if assigned_location_id b = Some l then quantity b else 0)"
  by (simp add: assigned_quantity_def)

text \<open>Changing one batch (found by its key) without moving it.\<close>

lemma assigned_quantity_update:
  assumes "distinct (map batch_id bs)" and "c \<in> set bs"
      and "\<And>b. assigned_location_id (f b) = assigned_location_id b"
  shows "assigned_quantity (map (\<lambda>b. if batch_id b = batch_id c then f b else b) bs) l
           = assigned_quantity bs l
             + (if assigned_location_id c = Some l then quantity (f c) - quantity c else 0)"
  using assms(1,2)
proof (induction bs)
  case Nil
  then show ?case by simp
next
  case (Cons x xs)
  show ?case
  proof (cases "x = c")
    case True
    with Cons.prems have "batch_id c \<notin> batch_id ` set xs" by simp
    then have "\<forall>b \<in> set xs. batch_id b \<noteq> batch_id c" by (metis imageI)
    then have "map (\<lambda>b. if batch_id b = batch_id c then f b else b) xs = xs"
      by (simp add: map_idI)
    with True show ?thesis
      by (simp add: assigned_quantity_def assms(3))
  next
    case False
    with Cons.prems have c: "c \<in> set xs" by simp
    from Cons.prems have "batch_id x \<notin> batch_id ` set xs" by simp
    with c have ne: "batch_id x \<noteq> batch_id c" by (metis imageI)
    from Cons.prems have "distinct (map batch_id xs)" by simp
    from Cons.IH[OF this c] ne show ?thesis
      by (simp add: assigned_quantity_def)
  qed
qed

lemma assigned_quantity_remove:
  assumes "distinct (map batch_id bs)" and "c \<in> set bs"
  shows "assigned_quantity (filter (\<lambda>b. batch_id b \<noteq> batch_id c) bs) l
           = assigned_quantity bs l
             - (if assigned_location_id c = Some l then quantity c else 0)"
  using assms
proof (induction bs)
  case Nil
  then show ?case by simp
next
  case (Cons x xs)
  show ?case
  proof (cases "x = c")
    case True
    with Cons.prems have "batch_id c \<notin> batch_id ` set xs" by simp
    then have "\<forall>b \<in> set xs. batch_id b \<noteq> batch_id c" by (metis imageI)
    then have "filter (\<lambda>b. batch_id b \<noteq> batch_id c) xs = xs"
      by (simp add: filter_id_conv)
    with True show ?thesis
      by (simp add: assigned_quantity_def)
  next
    case False
    with Cons.prems have c: "c \<in> set xs" by simp
    from Cons.prems have "batch_id x \<notin> batch_id ` set xs" by simp
    with c have ne: "batch_id x \<noteq> batch_id c" by (metis imageI)
    from Cons.prems have "distinct (map batch_id xs)" by simp
    from Cons.IH[OF this c] ne show ?thesis
      by (simp add: assigned_quantity_def)
  qed
qed

lemma ledger_deltaI:
  assumes "storage_locations db' =
             map (\<lambda>loc. loc\<lparr>current_occupancy := current_occupancy loc + D (location_id loc)\<rparr>)
               (storage_locations db)"
      and "\<And>loc. loc \<in> set (storage_locations db) \<Longrightarrow>
             assigned_quantity (batches db') (location_id loc)
               = assigned_quantity (batches db) (location_id loc) + D (location_id loc)"
  shows "ledger_delta db db'"
  unfolding ledger_delta_def assms(1)
  by (rule map_cong[OF refl]) (simp add: assms(2))

lemma ledger_delta_refl: "ledger_delta db db"
  by (simp add: ledger_delta_def map_idI[symmetric])

lemma ledger_delta_same:
  "storage_locations db' = storage_locations db \<Longrightarrow> batches db' = batches db
   \<Longrightarrow> ledger_delta db db'"
  by (simp add: ledger_delta_def map_idI[symmetric])

lemma ledger_delta_trans:
  assumes "ledger_delta a b" and "ledger_delta b c"
  shows "ledger_delta a c"
proof -
  from assms have "storage_locations c =
    map ((\<lambda>loc. loc\<lparr>current_occupancy := current_occupancy loc
                      + (assigned_quantity (batches c) (location_id loc)
                         - assigned_quantity (batches b) (location_id loc))\<rparr>)
         \<circ> (\<lambda>loc. loc\<lparr>current_occupancy := current_occupancy loc
                      + (assigned_quantity (batches b) (location_id loc)
                         - assigned_quantity (batches a) (location_id loc))\<rparr>))
      (storage_locations a)"
    by (simp add: ledger_delta_def)
  then show ?thesis
    by (simp add: ledger_delta_def o_def)
qed

lemma ledger_delta_ok:
  assumes "ledger_delta db db'" and "ledger_ok db"
  shows "ledger_ok db'"
  unfolding ledger_ok_def
proof
  let ?g = "\<lambda>loc. loc\<lparr>current_occupancy :=
                         current_occupancy loc
                           + (assigned_quantity (batches db') (location_id loc)
                              - assigned_quantity (batches db) (location_id loc))\<rparr>"
  fix loc' assume m: "loc' \<in> set (storage_locations db')"
  from assms(1) have eq: "storage_locations db' = map ?g (storage_locations db)"
    by (simp only: ledger_delta_def)
  from m have "loc' \<in> ?g ` set (storage_locations db)"
    unfolding eq by simp
  then obtain loc where l: "loc \<in> set (storage_locations db)" and g: "loc' = ?g loc"
    by blast
  from assms(2) l have "current_occupancy loc = assigned_quantity (batches db) (location_id loc)"
    by (simp add: ledger_ok_def)
  with g show "current_occupancy loc' = assigned_quantity (batches db') (location_id loc')"
    by simp
qed

lemma schema_ok_alt:
  "schema_ok db \<longleftrightarrow>
     distinct (map batch_id (batches db))
   \<and> (\<forall>i \<in> set (map batch_id (batches db)). i < next_batch_id db)
   \<and> Some 0 \<notin> set (map assigned_location_id (batches db))
   \<and> 0 \<notin> set (map location_id (storage_locations db))
   \<and> 0 < next_location_id db"
  by (auto simp: schema_ok_def image_iff)

text \<open>A step that keeps the keys and the placement of the batches keeps the schema.\<close>

lemma schema_ok_kept:
  assumes "schema_ok db"
      and "map batch_id (batches db') = map batch_id (batches db)"
      and "map assigned_location_id (batches db') = map assigned_location_id (batches db)"
      and "map location_id (storage_locations db') = map location_id (storage_locations db)"
      and "next_batch_id db' = next_batch_id db" and "next_location_id db' = next_location_id db"
  shows "schema_ok db'"
  using assms unfolding schema_ok_alt by simp

lemma adjust_occupancy_ids [simp]:
  "map location_id (storage_locations (adjust_occupancy db a d))
     = map location_id (storage_locations db)"
  by (simp add: adjust_occupancy_map o_def)

lemma add_occupancy_fields [simp]:
  "batches (add_occupancy db l d) = batches db"
  "next_batch_id (add_occupancy db l d) = next_batch_id db"
  "next_location_id (add_occupancy db l d) = next_location_id db"
  "map location_id (storage_locations (add_occupancy db l d))
     = map location_id (storage_locations db)"
  by (simp_all add: add_occupancy_def o_def)

lemma findSuitableLocation_mem:
  assumes "findSuitableLocation db pid q = Inr (Some loc)"
  shows "loc \<in> set (storage_locations db)"
proof -
  from assms obtain c where
    "cold_storage_scan (candidateLocations db c q) = Some loc
     \<or> (case candidateLocations db c q of [] \<Rightarrow> None | l # _ \<Rightarrow> Some l) = Some loc"
    by (auto simp: findSuitableLocation_def Let_def split: option.splits if_splits)
  then have "loc \<in> set (candidateLocations db c q)"
  proof
    assume "cold_storage_scan (candidateLocations db c q) = Some loc"
    then show ?thesis
      by (simp only: cold_storage_scan_find) (drule find_Some_mem, simp)
  next
    assume "(case candidateLocations db c q of [] \<Rightarrow> None | l # _ \<Rightarrow> Some l) = Some loc"
    then show ?thesis
      by (cases "candidateLocations db c q") auto
  qed
  then show ?thesis
    by (simp add: candidateLocations_def)
qed

lemma postBatches_ledger:
  assumes "schema_ok db"
  shows "ledger_delta db (snd (postBatches db body)) \<and> schema_ok (snd (postBatches db body))"
proof (cases "\<exists>r db'. postBatches db body = (Inr r, db')")
  case False
  then have "snd (postBatches db body) = db"
    by (auto simp: postBatches_def Let_def split: sum.splits option.splits if_splits prod.splits)
  with assms show ?thesis by (simp add: ledger_delta_refl)
next
  case True
  then obtain loc db1 newId where
        f: "findSuitableLocation db (body_product_id body) (body_quantity body) = Inr (Some loc)"
    and i: "insert_batch db body (location_id loc) = Inr (newId, db1)"
    and r: "snd (postBatches db body) = add_occupancy db1 (location_id loc) (body_quantity body)"
    by (auto simp: postBatches_def Let_def split: sum.splits option.splits if_splits prod.splits)
  let ?row = "\<lparr>batch_id = next_batch_id db, b_product_id = body_product_id body,
               batch_number = body_batch_number body, expiry_date = body_expiry_date body,
               quantity = body_quantity body, barcode = barcode_or_batch_number body,
               assigned_location_id = Some (location_id loc), status = Available\<rparr>"
  from i have db1: "batches db1 = batches db @ [?row]" "storage_locations db1 = storage_locations db"
    "next_batch_id db1 = Suc (next_batch_id db)" "next_location_id db1 = next_location_id db"
    by (auto simp: insert_batch_def Let_def split: if_splits)
  from findSuitableLocation_mem[OF f] assms have l0: "location_id loc \<noteq> 0"
    by (auto simp: schema_ok_def)
  let ?D = "\<lambda>l. if l = location_id loc then body_quantity body else 0"
  have "ledger_delta db (snd (postBatches db body))"
  proof (rule ledger_deltaI[where D = ?D])
    show "storage_locations (snd (postBatches db body)) =
            map (\<lambda>l. l\<lparr>current_occupancy := current_occupancy l + ?D (location_id l)\<rparr>)
              (storage_locations db)"
      by (simp add: r add_occupancy_def db1)
  next
    fix l
    show "assigned_quantity (batches (snd (postBatches db body))) (location_id l)
            = assigned_quantity (batches db) (location_id l) + ?D (location_id l)"
      by (auto simp: r db1 assigned_quantity_append)
  qed
  moreover have "schema_ok (snd (postBatches db body))"
    using assms l0 unfolding schema_ok_alt
    by (auto simp: r db1 less_Suc_eq)
  ultimately show ?thesis ..
qed

text \<open>
  The pattern of PUT, DELETE and of one pick: the batch with a key is changed or removed,
  and the counter of its location moved by the difference.
\<close>

lemma ledger_delta_one_batch:
  assumes schema: "schema_ok db"
      and row: "c \<in> set (batches db)"
      and locs: "storage_locations db' = storage_locations (adjust_occupancy db (assigned_location_id c) d)"
      and sums: "\<And>l. assigned_quantity (batches db') l
                   = assigned_quantity (batches db) l
                     + (if assigned_location_id c = Some l then d else 0)"
  shows "ledger_delta db db'"
proof (rule ledger_deltaI[where D = "\<lambda>l. if assigned_location_id c = Some l then d else 0"])
  from schema row have "assigned_location_id c \<noteq> Some 0"
    by (auto simp: schema_ok_def)
  then show "storage_locations db' =
          map (\<lambda>loc. loc\<lparr>current_occupancy :=
                            current_occupancy loc
                              + (if assigned_location_id c = Some (location_id loc) then d else 0)\<rparr>)
            (storage_locations db)"
    unfolding locs adjust_occupancy_map
    by (intro map_cong[OF refl]) auto
next
  fix loc
  show "assigned_quantity (batches db') (location_id loc)
          = assigned_quantity (batches db) (location_id loc)
            + (if assigned_location_id c = Some (location_id loc) then d else 0)"
    by (rule sums)
qed

lemma putBatches_ledger:
  assumes "schema_ok db"
  shows "ledger_delta db (snd (putBatches db ident body st))
       \<and> schema_ok (snd (putBatches db ident body st))"
proof (cases "\<exists>r db'. putBatches db ident body st = (Inr r, db')")
  case False
  then have "snd (putBatches db ident body st) = db"
    by (auto simp: putBatches_def Let_def split: sum.splits option.splits if_splits)
  with assms show ?thesis by (simp add: ledger_delta_refl)
next
  case True
  then obtain old newStatus db1 where
        f: "find (\<lambda>b. batch_id b = ident) (batches db) = Some old"
    and u: "update_batch db ident body newStatus = Inr db1"
    and r: "snd (putBatches db ident body st)
              = adjust_occupancy db1 (assigned_location_id old) (body_quantity body - quantity old)"
    by (auto simp: putBatches_def Let_def split: sum.splits option.splits if_splits)
  let ?f = "\<lambda>b. b\<lparr>b_product_id := body_product_id body,
                    batch_number := body_batch_number body,
                    expiry_date := body_expiry_date body,
                    quantity := body_quantity body,
                    barcode := barcode_or_batch_number body,
                    status := newStatus\<rparr>"
  from f have old: "old \<in> set (batches db)" "batch_id old = ident"
    by (auto dest: find_Some_mem)
  from u have db1: "batches db1 = map (\<lambda>b. if batch_id b = batch_id old then ?f b else b) (batches db)"
    "storage_locations db1 = storage_locations db"
    "next_batch_id db1 = next_batch_id db" "next_location_id db1 = next_location_id db"
    by (auto simp: update_batch_def Let_def old split: if_splits)
  from assms have d: "distinct (map batch_id (batches db))"
    by (simp add: schema_ok_def)
  have "ledger_delta db (snd (putBatches db ident body st))"
  proof (rule ledger_delta_one_batch[OF assms old(1)])
    show "storage_locations (snd (putBatches db ident body st)) =
            storage_locations (adjust_occupancy db (assigned_location_id old)
                                 (body_quantity body - quantity old))"
      by (simp add: r adjust_occupancy_map db1)
  next
    fix l
    show "assigned_quantity (batches (snd (putBatches db ident body st))) l
            = assigned_quantity (batches db) l
              + (if assigned_location_id old = Some l then body_quantity body - quantity old
                 else 0)"
      unfolding r adjust_occupancy_others db1
      by (subst assigned_quantity_update[OF d old(1)]) simp_all
  qed
  moreover have "schema_ok (snd (putBatches db ident body st))"
    by (rule schema_ok_kept[OF assms]) (simp_all add: r db1 o_def if_distrib cong: if_cong)
  ultimately show ?thesis ..
qed

lemma deleteBatches_ledger:
  assumes "schema_ok db"
  shows "ledger_delta db (snd (deleteBatches db ident))
       \<and> schema_ok (snd (deleteBatches db ident))"
proof (cases "\<exists>r db'. deleteBatches db ident = (Inr r, db')")
  case False
  then have "snd (deleteBatches db ident) = db"
    by (auto simp: deleteBatches_def Let_def split: sum.splits option.splits if_splits)
  with assms show ?thesis by (simp add: ledger_delta_refl)
next
  case True
  then obtain row where
        f: "find (\<lambda>b. batch_id b = ident) (batches db) = Some row"
    and r: "snd (deleteBatches db ident)
              = adjust_occupancy
                  (db\<lparr>order_batch_picks := filter (\<lambda>p. p_batch_id p \<noteq> ident) (order_batch_picks db),
                      batches := filter (\<lambda>b. batch_id b \<noteq> ident) (batches db)\<rparr>)
                  (assigned_location_id row) (- quantity row)"
    by (auto simp: deleteBatches_def Let_def split: sum.splits option.splits if_splits)
  from f have row: "row \<in> set (batches db)" "batch_id row = ident"
    by (auto dest: find_Some_mem)
  from assms have d: "distinct (map batch_id (batches db))"
    by (simp add: schema_ok_def)
  have "ledger_delta db (snd (deleteBatches db ident))"
  proof (rule ledger_delta_one_batch[OF assms row(1)])
    show "storage_locations (snd (deleteBatches db ident)) =
            storage_locations (adjust_occupancy db (assigned_location_id row) (- quantity row))"
      by (simp add: r adjust_occupancy_map)
  next
    fix l
    show "assigned_quantity (batches (snd (deleteBatches db ident))) l
            = assigned_quantity (batches db) l
              + (if assigned_location_id row = Some l then - quantity row else 0)"
      using assigned_quantity_remove[OF d row(1), of l]
      by (simp add: r row(2))
  qed
  moreover have "schema_ok (snd (deleteBatches db ident))"
    using assms unfolding schema_ok_def
    by (auto simp: r adjust_occupancy_map distinct_map_filter)
  ultimately show ?thesis ..
qed

text \<open>
  The inner loop, for candidates that are rows of the store (by key and location): the
  query has just read them.
\<close>

lemma pick_loop_ledger:
  assumes "pick_loop db oid cs r = Inr (db', r')" and "schema_ok db"
      and "\<forall>c \<in> set cs. (batch_id c, assigned_location_id c)
                          \<in> set (map (\<lambda>b. (batch_id b, assigned_location_id b)) (batches db))"
  shows "ledger_delta db db' \<and> schema_ok db'"
  using assms
proof (induction cs arbitrary: db r)
  case Nil
  then show ?case by (simp add: ledger_delta_refl)
next
  case (Cons c cs)
  show ?case
  proof (cases "r \<le> 0")
    case True
    with Cons.prems show ?thesis by (simp add: ledger_delta_refl)
  next
    case False
    let ?t = "min r (quantity c)"
    from Cons.prems(1) False obtain db1 where ins: "insert_pick db oid (batch_id c) ?t = Inr db1"
      by (auto simp: Let_def split: sum.splits)
    let ?db3 = "adjust_occupancy (reduce_batch_quantity db1 (batch_id c) ?t)
                  (assigned_location_id c) (- ?t)"
    from Cons.prems(1) False ins have rest: "pick_loop ?db3 oid cs (r - ?t) = Inr (db', r')"
      by (simp add: Let_def)
    note f = insert_pick_fields[OF ins]
    from Cons.prems(3) obtain b where b: "b \<in> set (batches db)" "batch_id b = batch_id c"
      "assigned_location_id b = assigned_location_id c"
      by auto
    from Cons.prems(2) have d: "distinct (map batch_id (batches db))"
      by (simp add: schema_ok_def)
    have step: "ledger_delta db ?db3"
    proof (rule ledger_delta_one_batch[OF Cons.prems(2) b(1)])
      show "storage_locations ?db3 =
              storage_locations (adjust_occupancy db (assigned_location_id b) (- ?t))"
        by (simp add: adjust_occupancy_map f b)
    next
      fix l
      have "assigned_quantity
              (map (\<lambda>x. if batch_id x = batch_id b then x\<lparr>quantity := quantity x - ?t\<rparr> else x)
                 (batches db)) l
            = assigned_quantity (batches db) l
              + (if assigned_location_id b = Some l
                 then quantity (b\<lparr>quantity := quantity b - ?t\<rparr>) - quantity b else 0)"
        by (rule assigned_quantity_update[OF d b(1)]) simp
      then show "assigned_quantity (batches ?db3) l
              = assigned_quantity (batches db) l
                + (if assigned_location_id b = Some l then - ?t else 0)"
        by (simp add: f b)
    qed
    have keys: "map (\<lambda>b. (batch_id b, assigned_location_id b)) (batches ?db3)
                  = map (\<lambda>b. (batch_id b, assigned_location_id b)) (batches db)"
      by (simp add: f o_def if_distrib cong: if_cong)
    have ok3: "schema_ok ?db3"
      by (rule schema_ok_kept[OF Cons.prems(2)]) (simp_all add: f o_def if_distrib cong: if_cong)
    from Cons.prems(3) have "\<forall>c \<in> set cs. (batch_id c, assigned_location_id c)
                          \<in> set (map (\<lambda>b. (batch_id b, assigned_location_id b)) (batches ?db3))"
      unfolding keys by simp
    from Cons.IH[OF rest ok3 this] step show ?thesis
      by (auto intro: ledger_delta_trans)
  qed
qed

lemma process_item_ledger:
  assumes "process_item db oid item = Inr db'" and "schema_ok db"
  shows "ledger_delta db db' \<and> schema_ok db'"
proof -
  obtain pid q where item: "item = (pid, q)" by (cases item)
  from assms(1) obtain db1 r' where i: "insert_order_item db oid pid q = Inr db1"
    and l: "pick_loop db1 oid (availableBatches db pid) q = Inr (db', r')"
    unfolding item by (auto elim: process_item_Inr)
  note f = insert_order_item_fields[OF i]
  from assms(2) f have ok1: "schema_ok db1"
    by (intro schema_ok_kept[OF assms(2)]) simp_all
  have "\<forall>c \<in> set (availableBatches db pid). (batch_id c, assigned_location_id c)
                          \<in> set (map (\<lambda>b. (batch_id b, assigned_location_id b)) (batches db1))"
    by (auto simp: f availableBatches_set)
  from pick_loop_ledger[OF l ok1 this] have "ledger_delta db1 db'" "schema_ok db'"
    by simp_all
  moreover have "ledger_delta db db1"
    by (rule ledger_delta_same) (simp_all add: f)
  ultimately show ?thesis
    by (auto intro: ledger_delta_trans)
qed

lemma items_loop_ledger:
  assumes "items_loop db oid items = Inr db'" and "schema_ok db"
  shows "ledger_delta db db' \<and> schema_ok db'"
  using assms
proof (induction items arbitrary: db)
  case Nil
  then show ?case by (simp add: ledger_delta_refl)
next
  case (Cons item items)
  from Cons.prems(1) obtain db1 where p: "process_item db oid item = Inr db1"
    and rest: "items_loop db1 oid items = Inr db'"
    by (auto split: sum.splits)
  from process_item_ledger[OF p Cons.prems(2)] have s: "ledger_delta db db1" "schema_ok db1"
    by simp_all
  from Cons.IH[OF rest s(2)] s(1) show ?case
    by (auto intro: ledger_delta_trans)
qed

lemma postOrders_ledger:
  assumes "schema_ok db"
  shows "ledger_delta db (snd (postOrders db now items))
       \<and> schema_ok (snd (postOrders db now items))"
proof (cases "\<exists>r db'. postOrders db now items = (Inr r, db')")
  case False
  then have "snd (postOrders db now items) = db"
    by (auto simp: postOrders_def Let_def split: sum.splits if_splits prod.splits)
  with assms show ?thesis by (simp add: ledger_delta_refl)
next
  case True
  let ?db1 = "snd (insert_order db now)"
  from True have l: "items_loop ?db1 (next_order_id db) items = Inr (snd (postOrders db now items))"
    by (auto simp: postOrders_def insert_order_def Let_def split: sum.splits if_splits)
  have f: "batches ?db1 = batches db" "storage_locations ?db1 = storage_locations db"
    "next_batch_id ?db1 = next_batch_id db" "next_location_id ?db1 = next_location_id db"
    by (simp_all add: insert_order_def)
  have ok1: "schema_ok ?db1"
    by (rule schema_ok_kept[OF assms]) (simp_all add: f)
  have "ledger_delta db ?db1"
    by (rule ledger_delta_same) (simp_all add: f)
  with items_loop_ledger[OF l ok1] show ?thesis
    by (auto intro: ledger_delta_trans)
qed

text \<open>
  Claim C1. In a store that satisfies the schema, each of the four mutating operations
  (POST /batches, PUT /batches/:id, DELETE /batches/:id, POST /orders), whether it
  succeeds or is rolled back, leaves every location row in place with its
  \<open>current_occupancy\<close> moved by exactly the change of the sum of the quantities of
  the batches assigned to that location; the store still satisfies the schema; and when
  every counter equalled that sum before, every counter equals it afterwards.
\<close>

theorem occupancy_ledger_invariant:
  assumes "schema_ok db"
  shows "ledger_delta db (handle db req)
       \<and> schema_ok (handle db req)
       \<and> (ledger_ok db \<longrightarrow> ledger_ok (handle db req))"
proof -
  have "ledger_delta db (handle db req) \<and> schema_ok (handle db req)"
  proof (cases req)
    case (PostBatches body)
    with postBatches_ledger[OF assms] show ?thesis by simp
  next
    case (PutBatches ident body st)
    with putBatches_ledger[OF assms] show ?thesis by simp
  next
    case (DeleteBatches ident)
    with deleteBatches_ledger[OF assms] show ?thesis by simp
  next
    case (PostOrders now items)
    with postOrders_ledger[OF assms] show ?thesis by simp
  qed
  then show ?thesis
    by (auto intro: ledger_delta_ok)
qed

lemma sample_ledger_ok: "ledger_ok sample_db"
  by (simp add: ledger_ok_def sample_defs assigned_quantity_def)

text \<open>
  In the sample store the counters are 10, 12 and 0, as the batches are. After the order
  for 7 gloves they are 3, 12 and 0, and so are the sums; after deleting batch 3 they are
  10, 0 and 0.
\<close>

theorem occupancy_ledger_invariant_witness:
  "schema_ok sample_db \<and> ledger_ok sample_db
   \<and> ledger_ok (handle sample_db (PostOrders 0 [(1, 7)]))
   \<and> map current_occupancy (storage_locations (handle sample_db (PostOrders 0 [(1, 7)])))
       = [3, 12, 0]
   \<and> map (\<lambda>loc. assigned_quantity (batches (handle sample_db (PostOrders 0 [(1, 7)])))
                   (location_id loc))
         (storage_locations (handle sample_db (PostOrders 0 [(1, 7)])))
       = [3, 12, 0]
   \<and> ledger_ok (handle sample_db (DeleteBatches 3))
   \<and> map current_occupancy (storage_locations (handle sample_db (DeleteBatches 3)))
       = [10, 0, 0]"
proof -
  note t1 = occupancy_ledger_invariant[OF sample_schema_ok, of "PostOrders 0 [(1, 7)]"]
  note t2 = occupancy_ledger_invariant[OF sample_schema_ok, of "DeleteBatches 3"]
  have o1: "map current_occupancy (storage_locations (handle sample_db (PostOrders 0 [(1, 7)])))
       = [3, 12, 0]"
    by (simp add: sample_defs order_eval_defs)
  have o2: "map current_occupancy (storage_locations (handle sample_db (DeleteBatches 3)))
       = [10, 0, 0]"
    by (simp add: sample_defs deleteBatches_def adjust_occupancy_def add_occupancy_def js_truthy_def)
  from t1 sample_ledger_ok have l1: "ledger_ok (handle sample_db (PostOrders 0 [(1, 7)]))" by blast
  from t2 sample_ledger_ok have l2: "ledger_ok (handle sample_db (DeleteBatches 3))" by blast
  from l1 have a1: "map (\<lambda>loc. assigned_quantity (batches (handle sample_db (PostOrders 0 [(1, 7)])))
                   (location_id loc))
         (storage_locations (handle sample_db (PostOrders 0 [(1, 7)])))
       = map current_occupancy (storage_locations (handle sample_db (PostOrders 0 [(1, 7)])))"
    unfolding ledger_ok_def by (intro map_cong[OF refl]) simp
  from sample_schema_ok sample_ledger_ok l1 o1 a1 l2 o2 show ?thesis by simp
qed

section \<open>Orders are all or nothing\<close>

lemma items_loop_append:
  "items_loop db oid (pre @ rest)
     = (case items_loop db oid pre of Inl e \<Rightarrow> Inl e | Inr d \<Rightarrow> items_loop d oid rest)"
  by (induction pre arbitrary: db) (auto split: sum.splits)

lemma fefo_plan_exhausts:
  "0 < r - sum_list (map snd (fefo_plan r cs))
   \<Longrightarrow> sum_list (map snd (fefo_plan r cs)) = sum_list (map quantity cs)"
proof (induction cs arbitrary: r)
  case Nil
  then show ?case by simp
next
  case (Cons c cs)
  from Cons.prems have pos: "\<not> r \<le> 0"
    by (auto split: if_splits)
  with Cons.prems have rest: "0 < (r - min r (quantity c))
                                - sum_list (map snd (fefo_plan (r - min r (quantity c)) cs))"
    by simp
  have "\<not> r - min r (quantity c) \<le> 0"
  proof
    assume a: "r - min r (quantity c) \<le> 0"
    then have "sum_list (map snd (fefo_plan (r - min r (quantity c)) cs)) = 0"
      by (simp only: fefo_plan_nonpos list.map sum_list.Nil)
    with rest a show False by linarith
  qed
  then have "min r (quantity c) = quantity c" by simp
  with Cons.IH[OF rest] pos show ?case by simp
qed

lemma postOrders_rollback:
  "fst (postOrders db now items) = Inl e \<Longrightarrow> snd (postOrders db now items) = db"
  by (auto simp: postOrders_def Let_def split: if_splits sum.splits prod.splits)

text \<open>
  Claim C3. Let the items before some item of an order have been fulfilled, and let the
  greedy consumption for that item (a valid item of an existing product) run through its
  candidates and end with \<open>remaining > 0\<close>. Then POST /orders answers the
  insufficient-stock error for that item, and the store is the store from before the
  order: the order row, the order items, the picks, the batch quantities and the
  occupancies of all items are as they were. The amount the error reports as available is
  the whole stock of the candidates. More generally, whatever error an order ends with,
  the store is the one from before the order.
\<close>

theorem order_all_or_nothing:
  assumes pre: "items_loop (snd (insert_order db now)) (next_order_id db) pre = Inr dbk"
      and valid: "productId \<noteq> 0" "0 < qty"
      and item: "insert_order_item dbk (next_order_id db) productId qty = Inr dbi"
      and loop: "pick_loop dbi (next_order_id db) (availableBatches dbi productId) qty
                   = Inr (dbl, remaining)"
      and short: "0 < remaining"
  shows "postOrders db now (pre @ (productId, qty) # post)
           = (Inl (InsufficientStock productId qty (qty - remaining)), db)
       \<and> qty - remaining = sum_list (map quantity (availableBatches dbk productId))
       \<and> (\<forall>items e. fst (postOrders db now items) = Inl e
                      \<longrightarrow> snd (postOrders db now items) = db)"
proof (intro conjI allI impI)
  have "process_item dbk (next_order_id db) (productId, qty)
          = Inl (InsufficientStock productId qty (qty - remaining))"
    using valid item loop short by (simp add: process_item_def)
  then have "items_loop (snd (insert_order db now)) (next_order_id db) (pre @ (productId, qty) # post)
          = Inl (InsufficientStock productId qty (qty - remaining))"
    by (simp add: items_loop_append pre)
  then show "postOrders db now (pre @ (productId, qty) # post)
           = (Inl (InsufficientStock productId qty (qty - remaining)), db)"
    by (simp add: postOrders_def insert_order_def)
  have av: "availableBatches dbi productId = availableBatches dbk productId"
    by (rule availableBatches_cong) (rule insert_order_item_fields[OF item])
  from pick_loop_plan[OF loop]
  have r: "remaining = qty - sum_list (map snd (fefo_plan qty (availableBatches dbk productId)))"
    by (simp add: av)
  with short fefo_plan_exhausts[of qty "availableBatches dbk productId"]
  show "qty - remaining = sum_list (map quantity (availableBatches dbk productId))"
    by simp
next
  fix items e
  assume "fst (postOrders db now items) = Inl e"
  then show "snd (postOrders db now items) = db"
    by (rule postOrders_rollback)
qed

text \<open>
  In the sample store an order for 5 vaccines and 11 gloves: the first item is fulfilled
  (5 of batch 3 picked), the second finds 10 gloves; the order fails and nothing of the
  first item is left.
\<close>

theorem order_all_or_nothing_witness:
  "postOrders sample_db 0 [(2, 5), (1, 11)] = (Inl (InsufficientStock 1 11 10), sample_db)
   \<and> (\<exists>dbk. items_loop (snd (insert_order sample_db 0)) (next_order_id sample_db) [(2, 5)] = Inr dbk
          \<and> map pick_content (order_batch_picks dbk) = [(1, 3, 3, PendingPick), (2, 3, 5, PendingPick)]
          \<and> map quantity (batches dbk) = [5, 5, 7]
          \<and> sum_list (map quantity (availableBatches dbk 1)) = 10)"
proof -
  have "\<exists>dbk dbi dbl.
          items_loop (snd (insert_order sample_db 0)) (next_order_id sample_db) [(2, 5)] = Inr dbk
        \<and> map pick_content (order_batch_picks dbk) = [(1, 3, 3, PendingPick), (2, 3, 5, PendingPick)]
        \<and> map quantity (batches dbk) = [5, 5, 7]
        \<and> insert_order_item dbk (next_order_id sample_db) 1 11 = Inr dbi
        \<and> pick_loop dbi (next_order_id sample_db) (availableBatches dbi 1) 11 = Inr (dbl, 1)"
    by (simp add: sample_defs order_eval_defs pick_content_def)
  then obtain dbk dbi dbl where
        k: "items_loop (snd (insert_order sample_db 0)) (next_order_id sample_db) [(2, 5)] = Inr dbk"
    and c: "map pick_content (order_batch_picks dbk) = [(1, 3, 3, PendingPick), (2, 3, 5, PendingPick)]"
           "map quantity (batches dbk) = [5, 5, 7]"
    and i: "insert_order_item dbk (next_order_id sample_db) 1 11 = Inr dbi"
    and l: "pick_loop dbi (next_order_id sample_db) (availableBatches dbi 1) 11 = Inr (dbl, 1)"
    by (elim exE conjE) (rule that, assumption+)
  have v: "(1::nat) \<noteq> 0" "(0::int) < 11" "(0::int) < 1" by simp_all
  note t = order_all_or_nothing[OF k v(1,2) i l v(3), of "[]"]
  from t have "postOrders sample_db 0 [(2, 5), (1, 11)] = (Inl (InsufficientStock 1 11 10), sample_db)"
    by simp
  moreover from t have "sum_list (map quantity (availableBatches dbk 1)) = 10" by simp
  ultimately show ?thesis using k c by (intro conjI exI[of _ dbk]) simp_all
qed

section \<open>Order items\<close>

lemma process_item_order_items:
  assumes "process_item db oid item = Inr db'"
  shows "map item_content (order_items db')
           = map item_content (order_items db) @ [(oid, fst item, snd item)]"
proof -
  obtain pid q where item: "item = (pid, q)" by (cases item)
  from assms obtain db1 r' where i: "insert_order_item db oid pid q = Inr db1"
    and l: "pick_loop db1 oid (availableBatches db pid) q = Inr (db', r')"
    unfolding item by (auto elim: process_item_Inr)
  from pick_loop_plan[OF l] insert_order_item_fields[OF i] show ?thesis
    by (simp add: item)
qed

lemma items_loop_order_items:
  "items_loop db oid items = Inr db' \<Longrightarrow>
   map item_content (order_items db')
     = map item_content (order_items db) @ map (\<lambda>item. (oid, fst item, snd item)) items"
proof (induction items arbitrary: db)
  case Nil
  then show ?case by simp
next
  case (Cons item items)
  from Cons.prems obtain db1 where p: "process_item db oid item = Inr db1"
    and rest: "items_loop db1 oid items = Inr db'"
    by (auto split: sum.splits)
  from Cons.IH[OF rest] process_item_order_items[OF p] show ?case by simp
qed

text \<open>
  Claim C6, as amended. The order items are written inside the order's transaction. When
  POST /orders succeeds, the store has gained one order item per requested item, in
  order, with the order's id, the product and the requested quantity; when it fails, the
  order items are those from before the request: the rollback takes the new ones with it.
\<close>

theorem order_items_follow_order:
  "(\<forall>orderId. fst (postOrders db now items) = Inr orderId \<longrightarrow>
      map item_content (order_items (snd (postOrders db now items)))
        = map item_content (order_items db)
          @ map (\<lambda>item. (orderId, fst item, snd item)) items)
   \<and> (\<forall>e. fst (postOrders db now items) = Inl e \<longrightarrow>
          order_items (snd (postOrders db now items)) = order_items db)"
proof (intro conjI allI impI)
  fix orderId
  assume ok: "fst (postOrders db now items) = Inr orderId"
  then have l: "items_loop (snd (insert_order db now)) orderId items
                  = Inr (snd (postOrders db now items))"
    by (auto simp: postOrders_def insert_order_def Let_def split: if_splits sum.splits)
  from items_loop_order_items[OF l]
  show "map item_content (order_items (snd (postOrders db now items)))
        = map item_content (order_items db) @ map (\<lambda>item. (orderId, fst item, snd item)) items"
    by (simp add: insert_order_def)
next
  fix e
  assume "fst (postOrders db now items) = Inl e"
  then show "order_items (snd (postOrders db now items)) = order_items db"
    by (simp add: postOrders_rollback)
qed

text \<open>
  In the sample store the order for 7 gloves adds the item (order 2, product 1, 7); the
  order for 11 gloves fails and adds none.
\<close>

theorem order_items_follow_order_witness:
  "fst (postOrders sample_db 0 [(1, 7)]) = Inr 2
   \<and> map item_content (order_items (snd (postOrders sample_db 0 [(1, 7)])))
       = [(1, 2, 3), (2, 1, 7)]
   \<and> fst (postOrders sample_db 0 [(1, 11)]) = Inl (InsufficientStock 1 11 10)
   \<and> map item_content (order_items (snd (postOrders sample_db 0 [(1, 11)]))) = [(1, 2, 3)]"
proof -
  have a: "fst (postOrders sample_db 0 [(1, 7)]) = Inr 2"
    by (simp add: sample_defs order_eval_defs)
  have b: "fst (postOrders sample_db 0 [(1, 11)]) = Inl (InsufficientStock 1 11 10)"
    by (simp add: sample_defs order_eval_defs)
  have c: "map item_content (order_items sample_db) = [(1, 2, 3)]"
    by (simp add: sample_defs item_content_def)
  note t1 = order_items_follow_order[of sample_db 0 "[(1, 7)]", THEN conjunct1, rule_format, OF a]
  note t2 = order_items_follow_order[of sample_db 0 "[(1, 11)]", THEN conjunct2, rule_format, OF b]
  from t1 t2 a b c show ?thesis by simp
qed

text \<open>
  Claim C6 as stated fails: the order for 11 gloves ends with insufficient stock, and no
  order item for it is in the store afterwards.
\<close>

theorem order_items_survive_counterexample:
  "fst (postOrders sample_db 0 [(1, 11)]) = Inl (InsufficientStock 1 11 10)
   \<and> (2, 1, 11) \<notin> set (map item_content (order_items (snd (postOrders sample_db 0 [(1, 11)]))))
   \<and> order_items (snd (postOrders sample_db 0 [(1, 11)])) = order_items sample_db"
  by (simp add: sample_defs order_eval_defs item_content_def)

section \<open>Capacity\<close>

lemmas scenario_defs =
  stocked_db_def empty_db_def small_shelf_def first_delivery_def
  postProducts_def postStorageLocations_def postBatches_def findSuitableLocation_def
  candidateLocations_def insert_batch_def barcode_or_batch_number_def add_occupancy_def

text \<open>
  Claim C5 fails on PUT /batches/:id. In the store filled through the handlers (one
  location of capacity 10 holding one batch of 5), editing the batch to quantity 50
  succeeds and leaves the location with occupancy 50: the handler adds the difference
  to the counter and never reads the capacity, which POST /batches checks through the
  allocator.
\<close>

theorem batch_edit_overfills_location:
  "map (\<lambda>loc. (location_id loc, capacity loc, current_occupancy loc)) (storage_locations stocked_db)
     = [(1, 10, 5)]
   \<and> map (\<lambda>b. (batch_id b, quantity b, assigned_location_id b)) (batches stocked_db)
     = [(1, 5, Some 1)]
   \<and> fst (putBatches stocked_db 1 (first_delivery\<lparr>body_quantity := 50\<rparr>) (Some Available))
     = Inr (Some \<lparr>batch_id = 1, b_product_id = 1, batch_number = ''GLOVE-001'',
                  expiry_date = 20454, quantity = 50, barcode = ''GLOVE-001'',
                  assigned_location_id = Some 1, status = Available\<rparr>)
   \<and> map (\<lambda>loc. (location_id loc, capacity loc, current_occupancy loc))
         (storage_locations
            (snd (putBatches stocked_db 1 (first_delivery\<lparr>body_quantity := 50\<rparr>) (Some Available))))
     = [(1, 10, 50)]"
  by (simp add: scenario_defs putBatches_def update_batch_def adjust_occupancy_def js_truthy_def
                Let_def)

end
